theory Spec2Isabelle
  imports Main
begin

section \<open>The component handler of the sample (lines 88--418)\<close>

text \<open>
  The registry is the revealing-module object \<^verbatim>\<open>componentHandler\<close>. Its two arrays
  \<^verbatim>\<open>registeredComponents_\<close> and \<^verbatim>\<open>createdComponents_\<close> and the part of the page it reads
  and writes are one explicit state value that every operation takes and returns.
  A name of the source that ends in an underscore ends in a prime here
  (\<^verbatim>\<open>element_\<close> is \<open>element'\<close>), since a name may not end in an underscore.

  Client code is opaque: a component constructor, an upgrade callback and an event
  listener are recorded in the trace when the registry calls them, and they return. What
  is known of client code is this. A constructor stores the element it is given in
  \<^verbatim>\<open>this.element_\<close> (every constructor of the sample does, and the typedef
  \<^verbatim>\<open>componentHandler.Component\<close> requires it). The listeners of the cancelable event
  \<^verbatim>\<open>mdl-componentupgrading\<close> decide, from the state in which the event is dispatched and
  its target, whether \<^verbatim>\<open>defaultPrevented\<close> is set. Client code changes the tree of the
  page (\<^verbatim>\<open>MaterialButton.prototype.init\<close>, lines 674--685, appends a child to its
  element): which node is a child of which is a function of the calls made to client code
  so far. Client code does not call the registry while the registry is calling it; the
  one place of the sample that does, \<^verbatim>\<open>MaterialDataTable.prototype.createCheckbox_\<close> at
  line 4176, upgrades an element it has just created and not yet attached, and such a
  nested call is not part of a run here.
\<close>

subsection \<open>Array and string primitives of the host language\<close>

text \<open>\<^verbatim>\<open>Array.prototype.indexOf\<close>: the first index holding the value, or -1.\<close>

fun indexOfFrom :: "'a list \<Rightarrow> 'a \<Rightarrow> int \<Rightarrow> int" where
  "indexOfFrom [] x i = -1"
| "indexOfFrom (y # ys) x i = (if y = x then i else indexOfFrom ys x (i + 1))"

definition indexOf :: "'a list \<Rightarrow> 'a \<Rightarrow> int" where
  "indexOf xs x = indexOfFrom xs x 0"

text \<open>
  \<^verbatim>\<open>xs.splice(start, 1)\<close>: a negative start counts from the end, the start is clamped
  to the array, and at most one element is deleted. In particular
  \<^verbatim>\<open>xs.splice(-1, 1)\<close> deletes the last element.
\<close>

definition splice1 :: "'a list \<Rightarrow> int \<Rightarrow> 'a list" where
  "splice1 xs start =
     (let len = int (length xs);
          actualStart = (if start < 0 then max (len + start) 0 else min start len);
          actualDeleteCount = min 1 (len - actualStart)
      in take (nat actualStart) xs @ drop (nat (actualStart + actualDeleteCount)) xs)"

text \<open>\<^verbatim>\<open>s.split(',')\<close> (never empty: the empty string splits into one empty string).\<close>

fun split_comma :: "string \<Rightarrow> string list" where
  "split_comma [] = [[]]"
| "split_comma (c # cs) =
     (if c = CHR '','' then [] # split_comma cs
      else (case split_comma cs of
              [] \<Rightarrow> [[c]]
            | w # ws \<Rightarrow> (c # w) # ws))"

text \<open>\<^verbatim>\<open>xs.join(',')\<close>.\<close>

fun join_comma :: "string list \<Rightarrow> string" where
  "join_comma [] = []"
| "join_comma [w] = w"
| "join_comma (w # v # ws) = w @ CHR '','' # join_comma (v # ws)"

text \<open>
  A value read from a property: the registry reads strings, booleans and objects, and
  a property that an object does not have reads as \<^verbatim>\<open>undefined\<close>.
\<close>

datatype JSValue = Undefined | StringValue string | BoolValue bool | ObjectValue

text \<open>
  \<^verbatim>\<open>xs.indexOf(v)\<close> on an array of strings compares with \<^verbatim>\<open>===\<close>: a value that is
  not a string is equal to no entry.
\<close>

definition indexOfValue :: "string list \<Rightarrow> JSValue \<Rightarrow> int" where
  "indexOfValue xs v = (case v of StringValue x \<Rightarrow> indexOf xs x | _ \<Rightarrow> -1)"

subsection \<open>The page\<close>

text \<open>
  A node has an identity, a kind (what \<^verbatim>\<open>instanceof Element\<close> and
  \<^verbatim>\<open>instanceof HTMLElement\<close> answer), the tokens of its \<^verbatim>\<open>classList\<close> and the nodes that
  are or will be its child nodes, in document order. Which of them are attached at a
  given moment is in the state, as is the one attribute the registry writes,
  \<^verbatim>\<open>data-upgraded\<close>, under the node's identity.
\<close>

datatype NodeKind = HTMLElementNode | OtherElementNode | NonElementNode

datatype Node = Node (nodeId: nat) (nodeKind: NodeKind) (classList: "string list")
  (childNodes: "Node list")

definition isElement :: "Node \<Rightarrow> bool" where
  "isElement n = (nodeKind n = HTMLElementNode \<or> nodeKind n = OtherElementNode)"

definition isHTMLElement :: "Node \<Rightarrow> bool" where
  "isHTMLElement n = (nodeKind n = HTMLElementNode)"

text \<open>What the public operations accept where the source says "elements" or "nodes".\<close>

datatype NodesArg =
  SingleNode Node
| ArrayOf "Node list"
| NodeListOf "Node list"
| HTMLCollectionOf "Node list"

subsection \<open>Descriptors, instances, events and the state\<close>

record Constructor =
  constructorName :: string
  prototypeHasConfigProperty :: bool

text \<open>\<^verbatim>\<open>componentHandler.ComponentConfigPublic\<close>, the argument of \<^verbatim>\<open>register\<close>.\<close>

record ComponentConfigPublic =
  config_constructor :: Constructor
  config_classAsString :: string
  config_cssClass :: string
  config_widget :: JSValue

text \<open>\<^verbatim>\<open>componentHandler.ComponentConfig\<close>, the object built at lines 309--315.\<close>

record ComponentConfig =
  classConstructor :: Constructor
  className :: string
  cssClass :: string
  widget :: JSValue
  callbacks :: "nat list"

text \<open>
  Reading a property of a descriptor by name. The descriptor has exactly the five
  properties that \<^verbatim>\<open>registerInternal\<close> gives it; every other name reads as
  \<^verbatim>\<open>undefined\<close>.
\<close>

definition getProperty :: "ComponentConfig \<Rightarrow> string \<Rightarrow> JSValue" where
  "getProperty c p =
     (if p = ''classConstructor'' then ObjectValue
      else if p = ''className'' then StringValue (className c)
      else if p = ''cssClass'' then StringValue (cssClass c)
      else if p = ''widget'' then widget c
      else if p = ''callbacks'' then ObjectValue
      else Undefined)"

definition truthy :: "JSValue \<Rightarrow> bool" where
  "truthy v = (case v of Undefined \<Rightarrow> False | StringValue x \<Rightarrow> x \<noteq> [] | BoolValue b \<Rightarrow> b
                | ObjectValue \<Rightarrow> True)"

text \<open>
  A created component: the object's identity, \<^verbatim>\<open>element_\<close> (set by the constructor)
  and the field named by \<^verbatim>\<open>componentConfigProperty_\<close>, absent until the registry sets
  it. The field refers to a descriptor object. The properties \<^verbatim>\<open>classConstructor\<close>,
  \<^verbatim>\<open>className\<close>, \<^verbatim>\<open>cssClass\<close> and \<^verbatim>\<open>widget\<close> of a descriptor object never change after
  line 315, and the field holds the descriptor as it was when line 245 ran. Its
  \<^verbatim>\<open>callbacks\<close> are therefore those of that moment: a later push at line 345 changes
  the object in the array and is not copied to the instances, and no line of the registry
  reads the callbacks through an instance (the only read of the field is at line 372, of
  a property that no descriptor has). Two descriptors that differ in one of the four
  constant properties are different objects.
\<close>

record Component =
  objectId :: nat
  element' :: nat
  mdlComponentConfigInternal' :: "ComponentConfig option"

datatype Event = Event string bool bool

datatype Effect =
  DispatchEvent nat Event
| ConstructorCall Constructor nat
| CallbackCall nat nat

text \<open>
  What an element has under a property name before the registry writes to it: nothing,
  a member that an assignment cannot change (an accessor without a setter, such as
  \<^verbatim>\<open>children\<close>), or a member that an assignment changes (a method, which the assignment
  shadows on the element, or an accessor with a setter, which the assignment runs).
\<close>

datatype Member = NoMember | ReadOnlyMember | WritableMember

text \<open>
  The state: the two arrays of the registry, and the page. Of the page, the registry
  writes the attribute \<^verbatim>\<open>data-upgraded\<close> and the properties it adds to elements at line
  254 (\<open>elementProperty\<close>: the object stored under a name). The rest is the host's and the
  client's and is only read: the members that elements have (\<open>elementMember\<close>), the nodes
  of the document (\<open>document\<close>, the roots), which child is attached to which parent after
  the calls to client code recorded so far (\<open>attached\<close>), and what
  \<^verbatim>\<open>document.querySelectorAll\<close> answers for a selector that is not a plain class
  selector, given those calls and the attributes (\<open>hostSelect\<close>; \<open>None\<close> is a
  \<^verbatim>\<open>SyntaxError\<close>).
\<close>

record State =
  registeredComponents' :: "ComponentConfig list"
  createdComponents' :: "Component list"
  dataUpgraded :: "nat \<Rightarrow> string option"
  elementProperty :: "nat \<Rightarrow> string \<Rightarrow> nat option"
  elementMember :: "nat \<Rightarrow> string \<Rightarrow> Member"
  document :: "Node list"
  attached :: "Effect list \<Rightarrow> nat \<Rightarrow> nat \<Rightarrow> bool"
  hostSelect :: "Effect list \<Rightarrow> (nat \<Rightarrow> string option) \<Rightarrow> string \<Rightarrow> Node list option"
  objectCount :: nat
  trace :: "Effect list"

type_synonym Listener = "State \<Rightarrow> nat \<Rightarrow> bool"

datatype Error =
  InvalidUpgradeArgument
| NoRegisteredComponent
| ReservedPropertyDefined
| InvalidDowngradeArgument
| TypeError
| SyntaxError

text \<open>
  An operation returns, or throws and leaves the state as it was at the throw, or it
  comes to an assignment that changes a member of an element (\<open>Unmodelled\<close>). After
  such an assignment the element is no longer what this model takes an element to be: a
  shadowed \<^verbatim>\<open>getAttribute\<close>, \<^verbatim>\<open>setAttribute\<close> or \<^verbatim>\<open>dispatchEvent\<close> makes the next call of
  it a \<^verbatim>\<open>TypeError\<close>, and a setter such as that of \<^verbatim>\<open>innerHTML\<close> rewrites the element.
  The state given is the one before the assignment, and nothing is said here about what
  the code does from there on.
\<close>

datatype Outcome = Returned State | Thrown Error State | Unmodelled State

fun finalState :: "Outcome \<Rightarrow> State" where
  "finalState (Returned s) = s"
| "finalState (Thrown e s) = s"
| "finalState (Unmodelled s) = s"

fun isReturned :: "Outcome \<Rightarrow> bool" where
  "isReturned (Returned s) = True"
| "isReturned (Thrown e s) = False"
| "isReturned (Unmodelled s) = False"

fun isModelled :: "Outcome \<Rightarrow> bool" where
  "isModelled (Returned s) = True"
| "isModelled (Thrown e s) = True"
| "isModelled (Unmodelled s) = False"

text \<open>A \<^verbatim>\<open>for\<close> loop over an array whose body may throw.\<close>

fun forEach :: "('a \<Rightarrow> State \<Rightarrow> Outcome) \<Rightarrow> 'a list \<Rightarrow> State \<Rightarrow> Outcome" where
  "forEach body [] s = Returned s"
| "forEach body (x # xs) s =
     (case body x s of
        Returned s1 \<Rightarrow> forEach body xs s1
      | Thrown e s1 \<Rightarrow> Thrown e s1
      | Unmodelled s1 \<Rightarrow> Unmodelled s1)"

text \<open>
  \<^verbatim>\<open>element.children\<close> and \<^verbatim>\<open>element.childNodes\<close> as the page has them in a state: the
  attached children, in document order, and among them the elements.
\<close>

definition isAttached :: "State \<Rightarrow> Node \<Rightarrow> Node \<Rightarrow> bool" where
  "isAttached s parent child = attached s (trace s) (nodeId parent) (nodeId child)"

definition children :: "State \<Rightarrow> Node \<Rightarrow> Node list" where
  "children s n = filter (\<lambda>c. isElement c \<and> isAttached s n c) (childNodes n)"

text \<open>
  The members of an element that the registry itself uses are the same on every
  element: \<^verbatim>\<open>getAttribute\<close>, \<^verbatim>\<open>setAttribute\<close> and \<^verbatim>\<open>dispatchEvent\<close> are methods,
  \<^verbatim>\<open>classList\<close> forwards an assignment to its \<^verbatim>\<open>value\<close>, and \<^verbatim>\<open>children\<close> has a getter
  only. Every other name is looked up in the table of the state.
\<close>

definition memberOf :: "State \<Rightarrow> nat \<Rightarrow> string \<Rightarrow> Member" where
  "memberOf s target name =
     (if name \<in> {''getAttribute'', ''setAttribute'', ''dispatchEvent'', ''classList''}
      then WritableMember
      else if name = ''children'' then ReadOnlyMember
      else elementMember s target name)"

text \<open>
  \<^verbatim>\<open>element[name] = object\<close> in strict code (line 89): a new property of the element, a
  \<^verbatim>\<open>TypeError\<close> for a member that cannot be assigned, and otherwise a change of the
  element itself.
\<close>

definition setProperty :: "nat \<Rightarrow> string \<Rightarrow> nat \<Rightarrow> State \<Rightarrow> Outcome" where
  "setProperty target name object s =
     (case memberOf s target name of
        NoMember \<Rightarrow>
          Returned (s\<lparr>elementProperty := (elementProperty s)
            (target := (elementProperty s target)(name := Some object))\<rparr>)
      | ReadOnlyMember \<Rightarrow> Thrown TypeError s
      | WritableMember \<Rightarrow> Unmodelled s)"

subsection \<open>Lines 108--166: lookup, the upgraded list, events\<close>

text \<open>
  \<^verbatim>\<open>findRegisteredClass_(name, optReplace)\<close> on the array: the result (\<open>None\<close> for
  \<^verbatim>\<open>false\<close>) and the array after the optional replacement.
\<close>

fun findRegisteredClass' ::
  "string \<Rightarrow> ComponentConfig option \<Rightarrow> ComponentConfig list
     \<Rightarrow> ComponentConfig option \<times> ComponentConfig list" where
  "findRegisteredClass' name optReplace [] = (None, [])"
| "findRegisteredClass' name optReplace (c # cs) =
     (if className c = name then
        (case optReplace of
           None \<Rightarrow> (Some c, c # cs)
         | Some r \<Rightarrow> (Some r, r # cs))
      else (case findRegisteredClass' name optReplace cs of
              (found, cs1) \<Rightarrow> (found, c # cs1)))"

definition getUpgradedListOfElement' :: "State \<Rightarrow> Node \<Rightarrow> string list" where
  "getUpgradedListOfElement' s element =
     (case dataUpgraded s (nodeId element) of
        None \<Rightarrow> [[]]
      | Some attr \<Rightarrow> split_comma attr)"

definition isElementUpgraded' :: "State \<Rightarrow> Node \<Rightarrow> string \<Rightarrow> bool" where
  "isElementUpgraded' s element jsClass =
     (indexOf (getUpgradedListOfElement' s element) jsClass \<noteq> -1)"

definition createEvent' :: "string \<Rightarrow> bool \<Rightarrow> bool \<Rightarrow> Event" where
  "createEvent' eventType bubbles cancelable = Event eventType bubbles cancelable"

definition dispatchEvent :: "nat \<Rightarrow> Event \<Rightarrow> State \<Rightarrow> State" where
  "dispatchEvent target ev s = s\<lparr>trace := trace s @ [DispatchEvent target ev]\<rparr>"

definition setAttribute :: "nat \<Rightarrow> string \<Rightarrow> State \<Rightarrow> State" where
  "setAttribute target v s = s\<lparr>dataUpgraded := (dataUpgraded s)(target := Some v)\<rparr>"

subsection \<open>Lines 207--264: upgrading one element\<close>

text \<open>\<^verbatim>\<open>new registeredClass.classConstructor(element)\<close>: a fresh object.\<close>

definition construct :: "Constructor \<Rightarrow> Node \<Rightarrow> State \<Rightarrow> Component \<times> State" where
  "construct ctor element s =
     (\<lparr>objectId = objectCount s, element' = nodeId element,
        mdlComponentConfigInternal' = None\<rparr>,
      s\<lparr>objectCount := Suc (objectCount s),
        trace := trace s @ [ConstructorCall ctor (nodeId element)]\<rparr>)"

text \<open>The \<^verbatim>\<open>forEach\<close> of lines 225--232, with \<^verbatim>\<open>classesToUpgrade\<close> as accumulator.\<close>

fun scanRegistered ::
  "State \<Rightarrow> Node \<Rightarrow> ComponentConfig list \<Rightarrow> ComponentConfig option list
     \<Rightarrow> ComponentConfig option list" where
  "scanRegistered s element [] classesToUpgrade = classesToUpgrade"
| "scanRegistered s element (component # rest) classesToUpgrade =
     scanRegistered s element rest
       (if cssClass component \<in> set (classList element) \<and>
           indexOf classesToUpgrade (Some component) = -1 \<and>
           \<not> isElementUpgraded' s element (className component)
        then classesToUpgrade @ [Some component]
        else classesToUpgrade)"

text \<open>
  The loop of lines 238--263. \<^verbatim>\<open>upgradedList\<close> is the array read once at line 219; the
  loop pushes to it and writes the joined array back, without reading the attribute
  again. When line 254 throws, the attribute is written, the instance is in the array
  and the callbacks have run, and \<^verbatim>\<open>mdl-componentupgraded\<close> is not dispatched.
\<close>

fun upgradeEach ::
  "Node \<Rightarrow> ComponentConfig option list \<Rightarrow> string list \<Rightarrow> State \<Rightarrow> Outcome" where
  "upgradeEach element [] upgradedList s = Returned s"
| "upgradeEach element (None # rest) upgradedList s = Thrown NoRegisteredComponent s"
| "upgradeEach element (Some registeredClass # rest) upgradedList s =
     (let upgradedList1 = upgradedList @ [className registeredClass];
          s1 = setAttribute (nodeId element) (join_comma upgradedList1) s;
          (created, s2) = construct (classConstructor registeredClass) element s1;
          instance = created\<lparr>mdlComponentConfigInternal' := Some registeredClass\<rparr>;
          s3 = s2\<lparr>createdComponents' := createdComponents' s2 @ [instance]\<rparr>;
          s4 = s3\<lparr>trace := trace s3 @
                 map (\<lambda>callback. CallbackCall callback (nodeId element))
                   (callbacks registeredClass)\<rparr>
      in (case (if truthy (widget registeredClass)
                then setProperty (nodeId element) (className registeredClass)
                       (objectId instance) s4
                else Returned s4) of
            Returned s5 \<Rightarrow>
              upgradeEach element rest upgradedList1
                (dispatchEvent (nodeId element)
                   (createEvent' ''mdl-componentupgraded'' True False) s5)
          | Thrown e s5 \<Rightarrow> Thrown e s5
          | Unmodelled s5 \<Rightarrow> Unmodelled s5))"

definition upgradeElementInternal ::
  "Listener \<Rightarrow> Node \<Rightarrow> string option \<Rightarrow> State \<Rightarrow> Outcome" where
  "upgradeElementInternal L element optJsClass s =
     (if \<not> isElement element then Thrown InvalidUpgradeArgument s
      else
        let upgradingEv = createEvent' ''mdl-componentupgrading'' True True;
            defaultPrevented = L s (nodeId element);
            s1 = dispatchEvent (nodeId element) upgradingEv s
        in if defaultPrevented then Returned s1
           else
             let upgradedList = getUpgradedListOfElement' s1 element;
                 classesToUpgrade =
                   (case optJsClass of
                      None \<Rightarrow> scanRegistered s1 element (registeredComponents' s1) []
                    | Some jsClass \<Rightarrow>
                        if jsClass = [] then
                          scanRegistered s1 element (registeredComponents' s1) []
                        else if \<not> isElementUpgraded' s1 element jsClass then
                          [fst (findRegisteredClass' jsClass None (registeredComponents' s1))]
                        else [])
             in upgradeEach element classesToUpgrade upgradedList s1)"

subsection \<open>Lines 177--198 and 353--357: upgrading the page\<close>

text \<open>A node and what is attached below it, in document order.\<close>

fun descendantsOrSelf :: "(nat \<Rightarrow> nat \<Rightarrow> bool) \<Rightarrow> Node \<Rightarrow> Node list" where
  "descendantsOrSelf att (Node i k cl ch) =
     Node i k cl ch # concat (map (descendantsOrSelf att) (filter (\<lambda>c. att i (nodeId c)) ch))"

text \<open>
  A class name that, after a dot, is a class selector and nothing else: a letter or an
  underscore, followed by letters, digits, underscores and hyphens.
\<close>

definition isNameStart :: "char \<Rightarrow> bool" where
  "isNameStart c =
     (let n = (of_char c :: nat) in (65 \<le> n \<and> n \<le> 90) \<or> (97 \<le> n \<and> n \<le> 122) \<or> n = 95)"

definition isNameChar :: "char \<Rightarrow> bool" where
  "isNameChar c =
     (let n = (of_char c :: nat) in isNameStart c \<or> (48 \<le> n \<and> n \<le> 57) \<or> n = 45)"

definition plainClassName :: "string \<Rightarrow> bool" where
  "plainClassName token =
     (case token of [] \<Rightarrow> False | c # cs \<Rightarrow> isNameStart c \<and> list_all isNameChar cs)"

text \<open>
  \<^verbatim>\<open>document.querySelectorAll(selector)\<close>, a static list or a \<^verbatim>\<open>SyntaxError\<close> (\<open>None\<close>).
  For a dot followed by a plain class name these are the elements of the document, as
  it is now, that carry the class, in document order (class names are compared exactly,
  as in a document that is not in quirks mode). Any other selector (\<^verbatim>\<open>.a.b\<close>, \<^verbatim>\<open>.a b\<close>,
  \<^verbatim>\<open>.1x\<close>, a lone dot) is answered by the host.
\<close>

definition querySelectorAll :: "string \<Rightarrow> State \<Rightarrow> Node list option" where
  "querySelectorAll selector s =
     (case selector of
        [] \<Rightarrow> hostSelect s (trace s) (dataUpgraded s) selector
      | c # token \<Rightarrow>
          if c = CHR ''.'' \<and> plainClassName token then
            Some (filter (\<lambda>n. isElement n \<and> token \<in> set (classList n))
              (concat (map (descendantsOrSelf (attached s (trace s))) (document s))))
          else hostSelect s (trace s) (dataUpgraded s) selector)"

text \<open>
  Lines 185--196, the branch taken when an argument is given. String concatenation
  with an \<^verbatim>\<open>optCssClass\<close> that is still \<^verbatim>\<open>undefined\<close> gives the selector
  \<^verbatim>\<open>.undefined\<close>.
\<close>

definition upgradeDomClass ::
  "Listener \<Rightarrow> string option \<Rightarrow> string option \<Rightarrow> State \<Rightarrow> Outcome" where
  "upgradeDomClass L jsClass optCssClass s =
     (let optCssClass1 =
            (case optCssClass of
               Some c \<Rightarrow> Some c
             | None \<Rightarrow>
                 (case jsClass of
                    None \<Rightarrow> None
                  | Some name \<Rightarrow>
                      (case fst (findRegisteredClass' name None (registeredComponents' s)) of
                         Some registeredClass \<Rightarrow> Some (cssClass registeredClass)
                       | None \<Rightarrow> None)))
      in (case querySelectorAll
                (''.'' @ (case optCssClass1 of Some c \<Rightarrow> c | None \<Rightarrow> ''undefined'')) s of
            None \<Rightarrow> Thrown SyntaxError s
          | Some elements \<Rightarrow>
              forEach (\<lambda>element. upgradeElementInternal L element jsClass) elements s))"

text \<open>
  With no argument the function calls itself once per descriptor with both arguments
  given (type name and marker class are strings), so each inner call runs lines
  185--196.
\<close>

definition upgradeDomInternal ::
  "Listener \<Rightarrow> string option \<Rightarrow> string option \<Rightarrow> State \<Rightarrow> Outcome" where
  "upgradeDomInternal L optJsClass optCssClass s =
     (if optJsClass = None \<and> optCssClass = None then
        forEach (\<lambda>component.
            upgradeDomClass L (Some (className component)) (Some (cssClass component)))
          (registeredComponents' s) s
      else upgradeDomClass L optJsClass optCssClass s)"

definition upgradeAllRegisteredInternal :: "Listener \<Rightarrow> State \<Rightarrow> Outcome" where
  "upgradeAllRegisteredInternal L s =
     forEach (\<lambda>component. upgradeDomInternal L (Some (className component)) None)
       (registeredComponents' s) s"

subsection \<open>Lines 272--289: upgrading a list of elements and their subtrees\<close>

text \<open>
  The loop of lines 280--288 on the array that lines 273--279 made. The children of an
  element are read at lines 284 and 285, after the element was upgraded, and the
  recursive call copies them into an array of its own at line 277.
\<close>

function upgradeElementsLoop :: "Listener \<Rightarrow> Node list \<Rightarrow> State \<Rightarrow> Outcome" where
  "upgradeElementsLoop L [] s = Returned s"
| "upgradeElementsLoop L (element # rest) s =
     (if isHTMLElement element then
        (case upgradeElementInternal L element None s of
           Thrown e s1 \<Rightarrow> Thrown e s1
         | Unmodelled s1 \<Rightarrow> Unmodelled s1
         | Returned s1 \<Rightarrow>
             if length (children s1 element) > 0 then
               (case upgradeElementsLoop L (children s1 element) s1 of
                  Thrown e s2 \<Rightarrow> Thrown e s2
                | Unmodelled s2 \<Rightarrow> Unmodelled s2
                | Returned s2 \<Rightarrow> upgradeElementsLoop L rest s2)
             else upgradeElementsLoop L rest s1)
      else upgradeElementsLoop L rest s)"
  by pat_completeness auto
termination
proof (relation "measure (\<lambda>(L, ns, s). size_list size ns)")
  have filter_size: "size_list size (filter P xs) \<le> size_list size xs"
    for P and xs :: "Node list"
    by (induction xs) auto
  have children_size: "size_list size (children s n) \<le> size n" for s n
    using filter_size [of "\<lambda>c. isElement c \<and> isAttached s n c" "childNodes n"]
    by (cases n) (simp add: children_def)
  fix L :: Listener and element :: Node and rest :: "Node list" and s x1 :: State
  show "((L, children x1 element, x1), (L, element # rest, s))
          \<in> measure (\<lambda>(L, ns, s). size_list size ns)"
    using children_size [of x1 element] by simp
qed auto

text \<open>
  The normalisation of lines 273--279. A single node that is not an element goes
  through \<^verbatim>\<open>Array.prototype.slice.call\<close>, which yields no element.
\<close>

definition upgradeElementsInternal :: "Listener \<Rightarrow> NodesArg \<Rightarrow> State \<Rightarrow> Outcome" where
  "upgradeElementsInternal L elements s =
     upgradeElementsLoop L
       (case elements of
          ArrayOf xs \<Rightarrow> xs
        | SingleNode n \<Rightarrow> (if isElement n then [n] else [])
        | NodeListOf xs \<Rightarrow> xs
        | HTMLCollectionOf xs \<Rightarrow> xs) s"

subsection \<open>Lines 296--347: registration and callbacks\<close>

definition registerInternal :: "ComponentConfigPublic \<Rightarrow> State \<Rightarrow> Outcome" where
  "registerInternal config s =
     (let widgetMissing = (config_widget config = Undefined);
          widget1 = (if \<not> widgetMissing then config_widget config else BoolValue True);
          newConfig = \<lparr>classConstructor = config_constructor config,
                       className = config_classAsString config,
                       cssClass = config_cssClass config,
                       widget = widget1,
                       callbacks = []\<rparr>
      in if prototypeHasConfigProperty (config_constructor config) then
           Thrown ReservedPropertyDefined s
         else
           (case findRegisteredClass' (config_classAsString config) (Some newConfig)
                   (registeredComponents' s) of
              (found, components) \<Rightarrow>
                (case found of
                   None \<Rightarrow> Returned (s\<lparr>registeredComponents' := components @ [newConfig]\<rparr>)
                 | Some c \<Rightarrow> Returned (s\<lparr>registeredComponents' := components\<rparr>))))"

text \<open>
  \<^verbatim>\<open>regClass.callbacks.push(callback)\<close> changes the descriptor object that sits in the
  array: the changed descriptor is written back at the place where it was found. The
  instances created from it keep the descriptor as it was when they were created.
\<close>

definition registerUpgradedCallbackInternal :: "string \<Rightarrow> nat \<Rightarrow> State \<Rightarrow> Outcome" where
  "registerUpgradedCallbackInternal jsClass callback s =
     (case fst (findRegisteredClass' jsClass None (registeredComponents' s)) of
        None \<Rightarrow> Returned s
      | Some regClass \<Rightarrow>
          Returned (s\<lparr>registeredComponents' :=
            snd (findRegisteredClass' jsClass
                   (Some (regClass\<lparr>callbacks := callbacks regClass @ [callback]\<rparr>))
                   (registeredComponents' s))\<rparr>))"

subsection \<open>Lines 366--405: downgrading\<close>

text \<open>
  Line 371 calls \<^verbatim>\<open>split\<close> on the result of \<^verbatim>\<open>getAttribute\<close> and line 372 reads a
  property of the field named by \<^verbatim>\<open>componentConfigProperty_\<close>: either is a
  \<^verbatim>\<open>TypeError\<close> when the attribute or the field is absent. Line 372 reads the property
  \<^verbatim>\<open>classAsString\<close> of the descriptor.
\<close>

definition deconstructComponentInternal :: "Component option \<Rightarrow> State \<Rightarrow> Outcome" where
  "deconstructComponentInternal optComponent s =
     (case optComponent of
        None \<Rightarrow> Returned s
      | Some component \<Rightarrow>
          let componentIndex = indexOf (createdComponents' s) component;
              s1 = s\<lparr>createdComponents' := splice1 (createdComponents' s) componentIndex\<rparr>
          in (case dataUpgraded s1 (element' component) of
                None \<Rightarrow> Thrown TypeError s1
              | Some attr \<Rightarrow>
                  let upgrades = split_comma attr
                  in (case mdlComponentConfigInternal' component of
                        None \<Rightarrow> Thrown TypeError s1
                      | Some config \<Rightarrow>
                          let componentPlace =
                                indexOfValue upgrades (getProperty config ''classAsString'');
                              upgrades1 = splice1 upgrades componentPlace;
                              s2 = setAttribute (element' component) (join_comma upgrades1) s1;
                              ev = createEvent' ''mdl-componentdowngraded'' True False
                          in Returned (dispatchEvent (element' component) ev s2))))"

definition downgradeNode :: "Node \<Rightarrow> State \<Rightarrow> Outcome" where
  "downgradeNode node s =
     forEach (\<lambda>item. deconstructComponentInternal (Some item))
       (filter (\<lambda>item. element' item = nodeId node) (createdComponents' s)) s"

text \<open>
  An \<^verbatim>\<open>HTMLCollection\<close> is neither an \<^verbatim>\<open>Array\<close>, a \<^verbatim>\<open>NodeList\<close> nor a \<^verbatim>\<open>Node\<close>.
\<close>

definition downgradeNodesInternal :: "NodesArg \<Rightarrow> State \<Rightarrow> Outcome" where
  "downgradeNodesInternal nodes s =
     (case nodes of
        ArrayOf xs \<Rightarrow> forEach downgradeNode xs s
      | NodeListOf xs \<Rightarrow> forEach downgradeNode xs s
      | SingleNode n \<Rightarrow> downgradeNode n s
      | HTMLCollectionOf xs \<Rightarrow> Thrown InvalidDowngradeArgument s)"

subsection \<open>Lines 409--417: the public operations\<close>

datatype Call =
  UpgradeDom "string option" "string option"
| UpgradeElement Node "string option"
| UpgradeElements NodesArg
| UpgradeAllRegistered
| RegisterUpgradedCallback string nat
| Register ComponentConfigPublic
| DowngradeElements NodesArg

fun perform :: "Listener \<Rightarrow> Call \<Rightarrow> State \<Rightarrow> Outcome" where
  "perform L (UpgradeDom optJsClass optCssClass) s = upgradeDomInternal L optJsClass optCssClass s"
| "perform L (UpgradeElement element optJsClass) s = upgradeElementInternal L element optJsClass s"
| "perform L (UpgradeElements elements) s = upgradeElementsInternal L elements s"
| "perform L UpgradeAllRegistered s = upgradeAllRegisteredInternal L s"
| "perform L (RegisterUpgradedCallback jsClass callback) s =
     registerUpgradedCallbackInternal jsClass callback s"
| "perform L (Register config) s = registerInternal config s"
| "perform L (DowngradeElements nodes) s = downgradeNodesInternal nodes s"

text \<open>
  A run of the page: the calls one after the other, each on the state its predecessor
  left, whether that one returned or threw (the arrays are module state and survive an
  exception).
\<close>

fun runCalls :: "Listener \<Rightarrow> Call list \<Rightarrow> State \<Rightarrow> State" where
  "runCalls L [] s = s"
| "runCalls L (c # cs) s = runCalls L cs (finalState (perform L c s))"

text \<open>When the script is loaded both arrays are empty; the page is arbitrary.\<close>

definition initial :: "State \<Rightarrow> bool" where
  "initial s = (registeredComponents' s = [] \<and> createdComponents' s = [])"

text \<open>A run in which every call returns or throws.\<close>

fun runsModelled :: "Listener \<Rightarrow> Call list \<Rightarrow> State \<Rightarrow> bool" where
  "runsModelled L [] s = True"
| "runsModelled L (c # cs) s =
     (isModelled (perform L c s) \<and> runsModelled L cs (finalState (perform L c s)))"

section \<open>Auxiliary definitions for the proofs\<close>

text \<open>
  Fragments of the functions above under names of their own, each proved equal to the
  fragment it names before it is used: one pass of the loop of lines 238--263 for a
  descriptor that was found, up to line 250 (\<open>instantiated\<close>) and to its end when line
  254 adds a property or is not reached (\<open>markUpgraded\<close>), the dispatch of the cancelable
  event, the candidate list of lines 220--235, and the descriptor that
  \<^verbatim>\<open>registerInternal\<close> builds.
\<close>

definition instantiated :: "Node \<Rightarrow> ComponentConfig \<Rightarrow> string list \<Rightarrow> State \<Rightarrow> State" where
  "instantiated element registeredClass upgradedList1 s =
     (let s1 = setAttribute (nodeId element) (join_comma upgradedList1) s;
          (created, s2) = construct (classConstructor registeredClass) element s1;
          instance = created\<lparr>mdlComponentConfigInternal' := Some registeredClass\<rparr>;
          s3 = s2\<lparr>createdComponents' := createdComponents' s2 @ [instance]\<rparr>
      in s3\<lparr>trace := trace s3 @
                 map (\<lambda>callback. CallbackCall callback (nodeId element))
                   (callbacks registeredClass)\<rparr>)"

definition markUpgraded :: "Node \<Rightarrow> ComponentConfig \<Rightarrow> string list \<Rightarrow> State \<Rightarrow> State" where
  "markUpgraded element registeredClass upgradedList1 s =
     (let s4 = instantiated element registeredClass upgradedList1 s;
          s5 = (if truthy (widget registeredClass)
                then s4\<lparr>elementProperty := (elementProperty s4)
                       (nodeId element := (elementProperty s4 (nodeId element))
                          (className registeredClass := Some (objectCount s)))\<rparr>
                else s4)
      in dispatchEvent (nodeId element)
                 (createEvent' ''mdl-componentupgraded'' True False) s5)"

text \<open>
  Line 254 is reached and the type name is a member of the element: the pass stops
  there.
\<close>

definition assignsMember :: "State \<Rightarrow> Node \<Rightarrow> ComponentConfig \<Rightarrow> bool" where
  "assignsMember s element registeredClass =
     (truthy (widget registeredClass) \<and>
      memberOf s (nodeId element) (className registeredClass) \<noteq> NoMember)"

definition upgrading :: "Node \<Rightarrow> State \<Rightarrow> State" where
  "upgrading element s =
     dispatchEvent (nodeId element) (createEvent' ''mdl-componentupgrading'' True True) s"

definition classesToUpgradeOf :: "State \<Rightarrow> Node \<Rightarrow> string option \<Rightarrow> ComponentConfig option list" where
  "classesToUpgradeOf s element optJsClass =
     (case optJsClass of
        None \<Rightarrow> scanRegistered s element (registeredComponents' s) []
      | Some jsClass \<Rightarrow>
          if jsClass = [] then scanRegistered s element (registeredComponents' s) []
          else if \<not> isElementUpgraded' s element jsClass then
            [fst (findRegisteredClass' jsClass None (registeredComponents' s))]
          else [])"

text \<open>A state that a call can leave from another: the same host, and a longer trace.\<close>

definition laterThan :: "State \<Rightarrow> State \<Rightarrow> bool" where
  "laterThan s s1 = (attached s1 = attached s \<and> (\<exists>t. trace s1 = trace s @ t))"

definition uniqueNames :: "State \<Rightarrow> bool" where
  "uniqueNames s = distinct (map className (registeredComponents' s))"

definition newConfigOf :: "ComponentConfigPublic \<Rightarrow> ComponentConfig" where
  "newConfigOf config =
     \<lparr>classConstructor = config_constructor config,
      className = config_classAsString config,
      cssClass = config_cssClass config,
      widget = (if config_widget config \<noteq> Undefined then config_widget config
                else BoolValue True),
      callbacks = []\<rparr>"

section \<open>Notions of the specification\<close>

text \<open>
  The live instances of one element for one type name: the created components whose
  \<^verbatim>\<open>element_\<close> is the element and whose descriptor carries the name.
\<close>

definition instancesOf :: "State \<Rightarrow> Node \<Rightarrow> string \<Rightarrow> Component list" where
  "instancesOf s element jsClass =
     filter (\<lambda>c. element' c = nodeId element \<and>
                 map_option className (mdlComponentConfigInternal' c) = Some jsClass)
       (createdComponents' s)"

text \<open>
  The invariant of the live-instance collection: every created component's element has
  the attribute \<^verbatim>\<open>data-upgraded\<close>, and the component carries a descriptor whose type name
  is registered. The descriptor need not be the one that the registry holds under that
  name now.
\<close>

definition liveInstancesSound :: "State \<Rightarrow> bool" where
  "liveInstancesSound s =
     list_all (\<lambda>c. dataUpgraded s (element' c) \<noteq> None \<and>
        (case mdlComponentConfigInternal' c of
           None \<Rightarrow> False
         | Some d \<Rightarrow> className d \<in> set (map className (registeredComponents' s))))
       (createdComponents' s)"



definition upgradedListAt :: "State \<Rightarrow> nat \<Rightarrow> string list" where
  "upgradedListAt s e =
     (case dataUpgraded s e of None \<Rightarrow> [[]] | Some attr \<Rightarrow> split_comma attr)"






text \<open>
  A component points at a registered descriptor record, as the specification words it:
  the field named by \<^verbatim>\<open>componentConfigProperty_\<close> is set, and the descriptor it refers to is
  one of the array. That descriptor then has the constant properties of one in the array
  (\<open>sameConstants\<close>: all but the callbacks, which line 345 changes in place), and a
  component whose descriptor has the constant properties of none in the array points at
  none of them.
\<close>

definition sameConstants :: "ComponentConfig \<Rightarrow> ComponentConfig \<Rightarrow> bool" where
  "sameConstants d r =
     (classConstructor d = classConstructor r \<and> className d = className r \<and>
      cssClass d = cssClass r \<and> widget d = widget r)"

definition pointsAtRegistered :: "State \<Rightarrow> Component \<Rightarrow> bool" where
  "pointsAtRegistered s c =
     (case mdlComponentConfigInternal' c of
        None \<Rightarrow> False
      | Some d \<Rightarrow> list_ex (sameConstants d) (registeredComponents' s))"

text \<open>
  A call that replaces a descriptor: a registration, which does not throw, of a type
  name that is registered. A run in which no call does.
\<close>

fun replacesDescriptor :: "Call \<Rightarrow> State \<Rightarrow> bool" where
  "replacesDescriptor (Register config) s =
     (\<not> prototypeHasConfigProperty (config_constructor config) \<and>
      list_ex (\<lambda>d. className d = config_classAsString config) (registeredComponents' s))"
| "replacesDescriptor (UpgradeDom optJsClass optCssClass) s = False"
| "replacesDescriptor (UpgradeElement element optJsClass) s = False"
| "replacesDescriptor (UpgradeElements elements) s = False"
| "replacesDescriptor UpgradeAllRegistered s = False"
| "replacesDescriptor (RegisterUpgradedCallback jsClass callback) s = False"
| "replacesDescriptor (DowngradeElements nodes) s = False"

fun neverReplaces :: "Listener \<Rightarrow> Call list \<Rightarrow> State \<Rightarrow> bool" where
  "neverReplaces L [] s = True"
| "neverReplaces L (c # cs) s =
     (\<not> replacesDescriptor c s \<and> neverReplaces L cs (finalState (perform L c s)))"

text \<open>
  The bulk upgrade as the specification words it. The input is read as a sequence of
  entries. An entry that is an \<^verbatim>\<open>HTMLElement\<close> is upgraded with no type name, and then
  its children, as they are after that upgrade, are upgraded in the same way in document
  order (\<open>upgradeSubtree\<close>); an exception ends it. An entry that is no \<^verbatim>\<open>HTMLElement\<close> is
  passed over.

  Where the tree does not change, each entry that is an \<^verbatim>\<open>HTMLElement\<close> stands for its
  subtree in pre-order (\<open>subtreePreorder\<close>), the element first and then the subtrees of its
  attached element children in document order, and an entry that is no \<^verbatim>\<open>HTMLElement\<close>
  stands for nothing.
\<close>

definition entriesOf :: "NodesArg \<Rightarrow> Node list" where
  "entriesOf elements =
     (case elements of
        SingleNode n \<Rightarrow> [n]
      | ArrayOf xs \<Rightarrow> xs
      | NodeListOf xs \<Rightarrow> xs
      | HTMLCollectionOf xs \<Rightarrow> xs)"

function upgradeSubtree :: "Listener \<Rightarrow> Node \<Rightarrow> State \<Rightarrow> Outcome"
  and upgradeSubtrees :: "Listener \<Rightarrow> Node list \<Rightarrow> State \<Rightarrow> Outcome" where
  "upgradeSubtree L n s =
     (if isHTMLElement n then
        (case upgradeElementInternal L n None s of
           Returned s1 \<Rightarrow> upgradeSubtrees L (children s1 n) s1
         | Thrown e s1 \<Rightarrow> Thrown e s1
         | Unmodelled s1 \<Rightarrow> Unmodelled s1)
      else Returned s)"
| "upgradeSubtrees L [] s = Returned s"
| "upgradeSubtrees L (n # ns) s =
     (case upgradeSubtree L n s of
        Returned s1 \<Rightarrow> upgradeSubtrees L ns s1
      | Thrown e s1 \<Rightarrow> Thrown e s1
      | Unmodelled s1 \<Rightarrow> Unmodelled s1)"
  by pat_completeness auto
termination
proof (relation "measure (\<lambda>x. case x of Inl (L, n, s) \<Rightarrow> size n
                                        | Inr (L, ns, s) \<Rightarrow> size_list size ns)")
  have filter_size: "size_list size (filter P xs) \<le> size_list size xs"
    for P and xs :: "Node list"
    by (induction xs) auto
  have children_size: "size_list size (children s n) < size n" for s n
    using filter_size [of "\<lambda>c. isElement c \<and> isAttached s n c" "childNodes n"]
    by (cases n) (simp add: children_def)
  fix L :: Listener and n :: Node and s x1 :: State
  show "(Inr (L, children x1 n, x1), Inl (L, n, s))
          \<in> measure (\<lambda>x. case x of Inl (L, n, s) \<Rightarrow> size n
                                   | Inr (L, ns, s) \<Rightarrow> size_list size ns)"
    using children_size [of x1 n] by simp
qed auto

fun subtreePreorder :: "(nat \<Rightarrow> nat \<Rightarrow> bool) \<Rightarrow> Node \<Rightarrow> Node list" where
  "subtreePreorder att (Node i k cl ch) =
     (if k = HTMLElementNode then
        Node i k cl ch #
          concat (map (subtreePreorder att) (filter (\<lambda>c. isElement c \<and> att i (nodeId c)) ch))
      else [])"

text \<open>
  From a state on, client code leaves the tree as it is: whatever calls are added to the
  trace, the same children are attached.
\<close>

definition treeAt :: "State \<Rightarrow> nat \<Rightarrow> nat \<Rightarrow> bool" where
  "treeAt s = attached s (trace s)"

text \<open>
  A tree in which every element is an \<^verbatim>\<open>HTMLElement\<close> and every other node is a leaf
  (no SVG or MathML element, no document fragment).
\<close>

fun htmlTree :: "Node \<Rightarrow> bool" where
  "htmlTree (Node i k cl ch) =
     (case k of
        HTMLElementNode \<Rightarrow> list_all htmlTree ch
      | OtherElementNode \<Rightarrow> False
      | NonElementNode \<Rightarrow> ch = [])"

subsection \<open>Fixtures of the scenarios\<close>

definition widgetConstructor :: Constructor where
  "widgetConstructor = \<lparr>constructorName = ''Widget'', prototypeHasConfigProperty = False\<rparr>"

definition widgetConfig :: "string \<Rightarrow> string \<Rightarrow> ComponentConfigPublic" where
  "widgetConfig name marker =
     \<lparr>config_constructor = widgetConstructor, config_classAsString = name,
      config_cssClass = marker, config_widget = Undefined\<rparr>"

definition collidingConfig :: ComponentConfigPublic where
  "collidingConfig =
     \<lparr>config_constructor =
        \<lparr>constructorName = ''Colliding'', prototypeHasConfigProperty = True\<rparr>,
      config_classAsString = ''Widget'', config_cssClass = ''w-js'',
      config_widget = Undefined\<rparr>"

text \<open>
  A page just loaded: no attribute, no property, nothing registered or created. The
  elements have no members but those that the registry uses, every child is attached and
  stays so, and the host takes no selector but a plain class selector.
\<close>

definition freshPage :: "Node list \<Rightarrow> State" where
  "freshPage nodes =
     \<lparr>registeredComponents' = [], createdComponents' = [], dataUpgraded = (\<lambda>n. None),
      elementProperty = (\<lambda>n p. None), elementMember = (\<lambda>n p. NoMember), document = nodes,
      attached = (\<lambda>t parent child. True), hostSelect = (\<lambda>t a selector. None),
      objectCount = 0, trace = []\<rparr>"

definition widgetElement :: Node where
  "widgetElement = Node 0 HTMLElementNode [''w-js''] []"

definition neverCancels :: Listener where
  "neverCancels s target = False"

definition alwaysCancels :: Listener where
  "alwaysCancels s target = True"

definition twoClassElement :: Node where
  "twoClassElement = Node 0 HTMLElementNode [''a-js'', ''b-js''] []"

text \<open>A small tree: an element with a text node, an element child with a child of its own,
  and an SVG element with a child.\<close>

definition smallTree :: Node where
  "smallTree =
     Node 0 HTMLElementNode [''w-js'']
       [Node 1 NonElementNode [] [],
        Node 2 HTMLElementNode [] [Node 3 HTMLElementNode [''w-js''] []],
        Node 4 OtherElementNode [] [Node 5 HTMLElementNode [''w-js''] []]]"

definition htmlOnlyTree :: Node where
  "htmlOnlyTree =
     Node 0 HTMLElementNode [''w-js'']
       [Node 1 NonElementNode [] [],
        Node 2 HTMLElementNode [] [Node 3 HTMLElementNode [''w-js''] []],
        Node 4 HTMLElementNode [''w-js''] []]"

text \<open>
  A page that grows: the child of the element is appended by the constructor that is
  called for the element, as \<^verbatim>\<open>MaterialButton.prototype.init\<close> appends its ripple
  container.
\<close>

definition growingElement :: Node where
  "growingElement = Node 0 HTMLElementNode [''w-js''] [Node 1 HTMLElementNode [''w-js''] []]"

definition growingPage :: State where
  "growingPage =
     (freshPage [growingElement])\<lparr>attached := (\<lambda>t parent child.
        list_ex (\<lambda>e. case e of ConstructorCall c n \<Rightarrow> n = parent | _ \<Rightarrow> False) t)\<rparr>"

section \<open>Facts about the model\<close>

subsection \<open>Lookup and loops\<close>



lemma forEach_preserves:
  assumes "\<And>x s. x \<in> set xs \<Longrightarrow> P s \<Longrightarrow> P (finalState (body x s))" and "P s"
  shows "P (finalState (forEach body xs s))"
  using assms
proof (induction xs arbitrary: s)
  case Nil
  then show ?case by simp
next
  case (Cons x xs)
  have step: "P (finalState (body x s))" using Cons.prems by simp
  show ?case
  proof (cases "body x s")
    case (Returned s1)
    with step have "P s1" by simp
    with Cons.IH [of s1] Cons.prems(1) Returned show ?thesis by simp
  next
    case (Thrown e s1)
    with step show ?thesis by simp
  next
    case (Unmodelled s1)
    with step show ?thesis by simp
  qed
qed

lemma isReturned_iff: "isReturned r = (\<exists>s. r = Returned s)"
  by (cases r) simp_all

lemma isReturned_finalState: "isReturned r \<Longrightarrow> r = Returned (finalState r)"
  by (cases r) simp_all

lemma find_fst_None: "(fst (findRegisteredClass' name r cs) = None) = (name \<notin> className ` set cs)"
  by (induction cs) (auto split: option.splits prod.splits)

lemma find_snd_None [simp]: "snd (findRegisteredClass' name None cs) = cs"
  by (induction cs) (auto split: prod.splits)

lemma find_fst_mem: "fst (findRegisteredClass' name None cs) = Some c \<Longrightarrow> c \<in> set cs \<and> className c = name"
  by (induction cs) (auto split: if_splits prod.splits)

lemma find_names: "className r = name \<Longrightarrow> map className (snd (findRegisteredClass' name (Some r) cs)) = map className cs"
  by (induction cs) (auto split: prod.splits)

lemma find_replace_at:
  "i < length cs \<Longrightarrow> className (cs ! i) = name \<Longrightarrow> \<forall>j<i. className (cs ! j) \<noteq> name \<Longrightarrow>
   findRegisteredClass' name (Some r) cs = (Some r, cs[i := r])"
proof (induction cs arbitrary: i)
  case Nil
  then show ?case by simp
next
  case (Cons c cs)
  show ?case
  proof (cases i)
    case 0
    with Cons.prems show ?thesis by simp
  next
    case (Suc k)
    with Cons.prems have c: "className c \<noteq> name" by auto
    from Suc Cons.prems have "\<forall>j<k. className (cs ! j) \<noteq> name" by auto
    with Cons.IH [of k] Suc Cons.prems have "findRegisteredClass' name (Some r) cs = (Some r, cs[k := r])"
      by simp
    with c Suc show ?thesis by simp
  qed
qed

lemma find_found_at:
  "fst (findRegisteredClass' name None cs) = Some c \<Longrightarrow>
   \<exists>i<length cs. cs ! i = c \<and> className c = name \<and> (\<forall>j<i. className (cs ! j) \<noteq> name)"
proof (induction cs)
  case Nil
  then show ?case by simp
next
  case (Cons d cs)
  show ?case
  proof (cases "className d = name")
    case True
    with Cons.prems show ?thesis by (intro exI [of _ 0]) simp
  next
    case False
    with Cons.prems have "fst (findRegisteredClass' name None cs) = Some c"
      by (simp split: prod.splits)
    from Cons.IH [OF this] obtain i where i: "i < length cs" "cs ! i = c" "className c = name"
      "\<forall>j<i. className (cs ! j) \<noteq> name" by blast
    show ?thesis
    proof (intro exI [of _ "Suc i"] conjI allI impI)
      fix j assume "j < Suc i"
      with i(4) False show "className ((d # cs) ! j) \<noteq> name" by (cases j) auto
    qed (use i in auto)
  qed
qed

subsection \<open>One pass of the upgrade loop\<close>

lemma dispatchEvent_fields [simp]:
  "registeredComponents' (dispatchEvent t ev s) = registeredComponents' s"
  "createdComponents' (dispatchEvent t ev s) = createdComponents' s"
  "dataUpgraded (dispatchEvent t ev s) = dataUpgraded s"
  "elementProperty (dispatchEvent t ev s) = elementProperty s"
  "elementMember (dispatchEvent t ev s) = elementMember s"
  "document (dispatchEvent t ev s) = document s"
  "attached (dispatchEvent t ev s) = attached s"
  "hostSelect (dispatchEvent t ev s) = hostSelect s"
  "objectCount (dispatchEvent t ev s) = objectCount s"
  "trace (dispatchEvent t ev s) = trace s @ [DispatchEvent t ev]"
  by (simp_all add: dispatchEvent_def)

lemma setAttribute_fields [simp]:
  "registeredComponents' (setAttribute t v s) = registeredComponents' s"
  "createdComponents' (setAttribute t v s) = createdComponents' s"
  "dataUpgraded (setAttribute t v s) = (dataUpgraded s)(t := Some v)"
  "elementProperty (setAttribute t v s) = elementProperty s"
  "elementMember (setAttribute t v s) = elementMember s"
  "document (setAttribute t v s) = document s"
  "attached (setAttribute t v s) = attached s"
  "hostSelect (setAttribute t v s) = hostSelect s"
  "objectCount (setAttribute t v s) = objectCount s"
  "trace (setAttribute t v s) = trace s"
  by (simp_all add: setAttribute_def)

lemma instantiated_fields [simp]:
  "registeredComponents' (instantiated element rc ul s) = registeredComponents' s"
  "createdComponents' (instantiated element rc ul s) = createdComponents' s @
     [\<lparr>objectId = objectCount s, element' = nodeId element, mdlComponentConfigInternal' = Some rc\<rparr>]"
  "dataUpgraded (instantiated element rc ul s) = (dataUpgraded s)(nodeId element := Some (join_comma ul))"
  "elementProperty (instantiated element rc ul s) = elementProperty s"
  "elementMember (instantiated element rc ul s) = elementMember s"
  "document (instantiated element rc ul s) = document s"
  "attached (instantiated element rc ul s) = attached s"
  "hostSelect (instantiated element rc ul s) = hostSelect s"
  "objectCount (instantiated element rc ul s) = Suc (objectCount s)"
  "trace (instantiated element rc ul s) =
     trace s @ [ConstructorCall (classConstructor rc) (nodeId element)] @
          map (\<lambda>callback. CallbackCall callback (nodeId element)) (callbacks rc)"
  by (simp_all add: instantiated_def Let_def construct_def)

lemma markUpgraded_fields [simp]:
  "registeredComponents' (markUpgraded element rc ul s) = registeredComponents' s"
  "createdComponents' (markUpgraded element rc ul s) = createdComponents' s @
     [\<lparr>objectId = objectCount s, element' = nodeId element, mdlComponentConfigInternal' = Some rc\<rparr>]"
  "dataUpgraded (markUpgraded element rc ul s) = (dataUpgraded s)(nodeId element := Some (join_comma ul))"
  "elementMember (markUpgraded element rc ul s) = elementMember s"
  "document (markUpgraded element rc ul s) = document s"
  "attached (markUpgraded element rc ul s) = attached s"
  "hostSelect (markUpgraded element rc ul s) = hostSelect s"
  "objectCount (markUpgraded element rc ul s) = Suc (objectCount s)"
  "trace (markUpgraded element rc ul s) =
     trace s @ [ConstructorCall (classConstructor rc) (nodeId element)] @
          map (\<lambda>callback. CallbackCall callback (nodeId element)) (callbacks rc) @
          [DispatchEvent (nodeId element) (Event ''mdl-componentupgraded'' True False)]"
  by (simp_all add: markUpgraded_def Let_def createEvent'_def)

lemma markUpgraded_elementProperty [simp]:
  "elementProperty (markUpgraded element rc ul s) =
     (if truthy (widget rc)
      then (elementProperty s)(nodeId element :=
             (elementProperty s (nodeId element))(className rc := Some (objectCount s)))
      else elementProperty s)"
  by (simp add: markUpgraded_def Let_def)

lemma memberOf_cong: "elementMember s1 = elementMember s \<Longrightarrow> memberOf s1 = memberOf s"
  by (simp add: memberOf_def fun_eq_iff)

lemma memberOf_instantiated [simp]: "memberOf (instantiated element rc ul s) = memberOf s"
  by (rule memberOf_cong) simp

text \<open>
  One pass of the loop for a descriptor that was found: it stops at line 254 when the
  type name is a member of the element, and otherwise goes on to the next candidate.
\<close>

lemma upgradeEach_Some:
  "upgradeEach element (Some registeredClass # rest) upgradedList s =
     (if assignsMember s element registeredClass then
        (if memberOf s (nodeId element) (className registeredClass) = ReadOnlyMember
         then Thrown TypeError
                (instantiated element registeredClass (upgradedList @ [className registeredClass]) s)
         else Unmodelled
                (instantiated element registeredClass (upgradedList @ [className registeredClass]) s))
      else upgradeEach element rest (upgradedList @ [className registeredClass])
             (markUpgraded element registeredClass (upgradedList @ [className registeredClass]) s))"
proof -
  let ?ul = "upgradedList @ [className registeredClass]"
  let ?s4 = "instantiated element registeredClass ?ul s"
  have unfold: "upgradeEach element (Some registeredClass # rest) upgradedList s =
      (case (if truthy (widget registeredClass)
             then setProperty (nodeId element) (className registeredClass) (objectCount s) ?s4
             else Returned ?s4) of
         Returned s5 \<Rightarrow>
           upgradeEach element rest ?ul
             (dispatchEvent (nodeId element) (createEvent' ''mdl-componentupgraded'' True False) s5)
       | Thrown e s5 \<Rightarrow> Thrown e s5
       | Unmodelled s5 \<Rightarrow> Unmodelled s5)"
    by (simp add: instantiated_def Let_def construct_def split: prod.splits)
  show ?thesis
  proof (cases "truthy (widget registeredClass)")
    case False
    then show ?thesis
      unfolding unfold by (simp add: assignsMember_def markUpgraded_def Let_def)
  next
    case True
    then show ?thesis
      unfolding unfold
      by (cases "memberOf s (nodeId element) (className registeredClass)")
        (simp_all add: assignsMember_def setProperty_def markUpgraded_def Let_def)
  qed
qed

declare upgradeEach.simps(3) [simp del]

lemma upgradeEach_preserves:
  assumes "\<And>rc ul s. Some rc \<in> set cs \<Longrightarrow> P s \<Longrightarrow> P (markUpgraded element rc ul s)"
    and "\<And>rc ul s. Some rc \<in> set cs \<Longrightarrow> P s \<Longrightarrow> P (instantiated element rc ul s)"
    and "P s"
  shows "P (finalState (upgradeEach element cs ul s))"
  using assms
proof (induction cs arbitrary: ul s)
  case Nil
  then show ?case by simp
next
  case (Cons c cs)
  show ?case
  proof (cases c)
    case None
    with Cons.prems show ?thesis by simp
  next
    case (Some rc)
    show ?thesis
    proof (cases "assignsMember s element rc")
      case True
      have "P (instantiated element rc (ul @ [className rc]) s)"
        using Cons.prems Some by simp
      with True Some show ?thesis by (simp add: upgradeEach_Some)
    next
      case False
      have "P (markUpgraded element rc (ul @ [className rc]) s)"
        using Cons.prems Some by simp
      then have "P (finalState (upgradeEach element cs (ul @ [className rc])
          (markUpgraded element rc (ul @ [className rc]) s)))"
        using Cons.prems(1,2) by (intro Cons.IH) auto
      with Some False show ?thesis by (simp add: upgradeEach_Some)
    qed
  qed
qed

lemma scanRegistered_set:
  "x \<in> set (scanRegistered s element cs acc) \<Longrightarrow> x \<in> set acc \<or> (\<exists>c \<in> set cs. x = Some c)"
proof (induction cs arbitrary: acc)
  case Nil
  then show ?case by simp
next
  case (Cons c cs)
  from Cons.IH [OF Cons.prems [simplified]] show ?case
    by (auto split: if_splits)
qed

lemma upgradeElementInternal_eq:
  "upgradeElementInternal L element optJsClass s =
     (if \<not> isElement element then Thrown InvalidUpgradeArgument s
      else if L s (nodeId element) then Returned (upgrading element s)
      else upgradeEach element (classesToUpgradeOf (upgrading element s) element optJsClass)
             (getUpgradedListOfElement' (upgrading element s) element) (upgrading element s))"
  by (simp add: upgradeElementInternal_def upgrading_def classesToUpgradeOf_def Let_def)

lemma upgrading_fields [simp]:
  "registeredComponents' (upgrading e s) = registeredComponents' s"
  "createdComponents' (upgrading e s) = createdComponents' s"
  "dataUpgraded (upgrading e s) = dataUpgraded s"
  "elementProperty (upgrading e s) = elementProperty s"
  "elementMember (upgrading e s) = elementMember s"
  "document (upgrading e s) = document s"
  "attached (upgrading e s) = attached s"
  "hostSelect (upgrading e s) = hostSelect s"
  "objectCount (upgrading e s) = objectCount s"
  "trace (upgrading e s) = trace s @ [DispatchEvent (nodeId e) (Event ''mdl-componentupgrading'' True True)]"
  by (simp_all add: upgrading_def createEvent'_def)

lemma memberOf_upgrading [simp]: "memberOf (upgrading e s) = memberOf s"
  by (rule memberOf_cong) simp

lemma assignsMember_upgrading [simp]:
  "assignsMember (upgrading e s) element rc = assignsMember s element rc"
  by (simp add: assignsMember_def)

lemma classesToUpgradeOf_registered:
  "Some rc \<in> set (classesToUpgradeOf s element optJsClass) \<Longrightarrow> rc \<in> set (registeredComponents' s)"
  unfolding classesToUpgradeOf_def
  by (auto split: option.splits if_splits dest: scanRegistered_set find_fst_mem [OF sym])

lemma upgradeElementInternal_preserves:
  assumes mark: "\<And>rc ul s. rc \<in> set (registeredComponents' s0) \<Longrightarrow> P s \<Longrightarrow> P (markUpgraded element rc ul s)"
    and inst: "\<And>rc ul s. rc \<in> set (registeredComponents' s0) \<Longrightarrow> P s \<Longrightarrow> P (instantiated element rc ul s)"
    and disp: "P s0 \<Longrightarrow> P (upgrading element s0)"
    and "P s0"
  shows "P (finalState (upgradeElementInternal L element optJsClass s0))"
proof -
  have "P (finalState (upgradeEach element (classesToUpgradeOf (upgrading element s0) element optJsClass)
             (getUpgradedListOfElement' (upgrading element s0) element) (upgrading element s0)))"
  proof (rule upgradeEach_preserves)
    show "P (upgrading element s0)" using disp assms(4) by simp
  next
    fix rc ul s
    assume "Some rc \<in> set (classesToUpgradeOf (upgrading element s0) element optJsClass)" and "P s"
    then show "P (markUpgraded element rc ul s)"
      using mark classesToUpgradeOf_registered [of rc "upgrading element s0"] by simp
  next
    fix rc ul s
    assume "Some rc \<in> set (classesToUpgradeOf (upgrading element s0) element optJsClass)" and "P s"
    then show "P (instantiated element rc ul s)"
      using inst classesToUpgradeOf_registered [of rc "upgrading element s0"] by simp
  qed
  then show ?thesis
    using assms(4) disp by (simp add: upgradeElementInternal_eq)
qed

lemma upgradeElementsLoop_preserves:
  "(\<And>element s. P s \<Longrightarrow> P (finalState (upgradeElementInternal L element None s))) \<Longrightarrow> P s \<Longrightarrow>
   P (finalState (upgradeElementsLoop L ns s))"
proof (induction L ns s rule: upgradeElementsLoop.induct)
  case (1 L s)
  then show ?case by simp
next
  case (2 L element rest s)
  note one = "2.prems"(1)
  show ?case
  proof (cases "isHTMLElement element")
    case False
    with 2 show ?thesis by simp
  next
    case True
    have step: "P (finalState (upgradeElementInternal L element None s))"
      using one "2.prems"(2) by simp
    show ?thesis
    proof (cases "upgradeElementInternal L element None s")
      case (Thrown e s1)
      with True step show ?thesis by simp
    next
      case (Unmodelled s1)
      with True step show ?thesis by simp
    next
      case (Returned s1)
      with step have P1: "P s1" by simp
      show ?thesis
      proof (cases "length (children s1 element) > 0")
        case False
        with "2.IH"(3) [OF True Returned _ one P1] True Returned show ?thesis by simp
      next
        case nonempty: True
        have sub: "P (finalState (upgradeElementsLoop L (children s1 element) s1))"
          using "2.IH"(1) [OF True Returned nonempty one P1] .
        show ?thesis
        proof (cases "upgradeElementsLoop L (children s1 element) s1")
          case (Thrown e s2)
          with sub True Returned nonempty show ?thesis by simp
        next
          case (Unmodelled s2)
          with sub True Returned nonempty show ?thesis by simp
        next
          case inner: (Returned s2)
          with sub have "P s2" by simp
          with "2.IH"(2) [OF True Returned nonempty inner one] True Returned nonempty inner
          show ?thesis by simp
        qed
      qed
    qed
  qed
qed

subsection \<open>What every public call preserves\<close>

text \<open>
  A property of the state that one pass of the upgrade loop, the dispatch of the
  cancelable event, a registration, a callback subscription and a teardown preserve is
  preserved by every public call, and so by every run.
\<close>

lemma deconstruct_registered [simp]:
  "registeredComponents' (finalState (deconstructComponentInternal c s)) = registeredComponents' s"
  by (simp add: deconstructComponentInternal_def Let_def split: option.splits)

lemma set_splice1: "set (splice1 xs i) \<subseteq> set xs"
  unfolding splice1_def Let_def
  by (auto dest: in_set_takeD in_set_dropD)

lemma deconstruct_created_subset:
  "set (createdComponents' (finalState (deconstructComponentInternal c s))) \<subseteq> set (createdComponents' s)"
  using set_splice1 [of "createdComponents' s"]
  by (simp add: deconstructComponentInternal_def Let_def split: option.splits)

lemma deconstruct_dataUpgraded_mono:
  "dataUpgraded s x \<noteq> None \<Longrightarrow> dataUpgraded (finalState (deconstructComponentInternal c s)) x \<noteq> None"
  by (simp add: deconstructComponentInternal_def Let_def split: option.splits)

lemma upgradeDomClass_preserves:
  assumes "\<And>element s. P s \<Longrightarrow> P (finalState (upgradeElementInternal L element jsClass s))" and "P s"
  shows "P (finalState (upgradeDomClass L jsClass optCssClass s))"
proof -
  have "P (finalState (forEach (\<lambda>element. upgradeElementInternal L element jsClass) elements s))"
    for elements
    by (rule forEach_preserves) (use assms in auto)
  with assms(2) show ?thesis
    unfolding upgradeDomClass_def Let_def by (simp split: option.splits)
qed

lemma perform_preserves_this:
  assumes one: "\<And>element opt s. P s \<Longrightarrow> P (finalState (upgradeElementInternal L element opt s))"
    and reg: "\<And>config. call = Register config \<Longrightarrow> P (finalState (registerInternal config s))"
    and cb: "\<And>n c s. P s \<Longrightarrow> P (finalState (registerUpgradedCallbackInternal n c s))"
    and down: "\<And>n s. P s \<Longrightarrow> P (finalState (downgradeNode n s))"
    and P: "P s"
  shows "P (finalState (perform L call s))"
proof -
  have dom: "P (finalState (upgradeDomClass L jsClass optCssClass s))" if "P s" for jsClass optCssClass s
    by (rule upgradeDomClass_preserves) (use that one in auto)
  show ?thesis
  proof (cases call)
    case (UpgradeDom optJsClass optCssClass)
    have "P (finalState (forEach (\<lambda>component.
            upgradeDomClass L (Some (className component)) (Some (cssClass component)))
            (registeredComponents' s) s))"
      by (rule forEach_preserves) (use P dom in auto)
    with UpgradeDom dom [OF P] show ?thesis by (simp add: upgradeDomInternal_def)
  next
    case (UpgradeElement element opt)
    with one [OF P] show ?thesis by simp
  next
    case (UpgradeElements elements)
    have "P (finalState (upgradeElementsLoop L ns s))" for ns
      by (rule upgradeElementsLoop_preserves) (use one P in auto)
    with UpgradeElements show ?thesis by (simp add: upgradeElementsInternal_def)
  next
    case UpgradeAllRegistered
    have "P (finalState (forEach (\<lambda>component. upgradeDomInternal L (Some (className component)) None)
            (registeredComponents' s) s))"
      by (rule forEach_preserves) (use P dom in \<open>auto simp: upgradeDomInternal_def\<close>)
    with UpgradeAllRegistered show ?thesis by (simp add: upgradeAllRegisteredInternal_def)
  next
    case (RegisterUpgradedCallback n c)
    with cb [OF P] show ?thesis by simp
  next
    case (Register config)
    with reg [OF Register] show ?thesis by simp
  next
    case (DowngradeElements nodes)
    have "P (finalState (forEach downgradeNode xs s))" for xs
      by (rule forEach_preserves) (use P down in auto)
    with DowngradeElements down [OF P] P show ?thesis
      by (cases nodes) (simp_all add: downgradeNodesInternal_def)
  qed
qed

lemma perform_preserves_calls:
  assumes one: "\<And>element opt s. P s \<Longrightarrow> P (finalState (upgradeElementInternal L element opt s))"
    and reg: "\<And>config s. P s \<Longrightarrow> P (finalState (registerInternal config s))"
    and cb: "\<And>n c s. P s \<Longrightarrow> P (finalState (registerUpgradedCallbackInternal n c s))"
    and down: "\<And>n s. P s \<Longrightarrow> P (finalState (downgradeNode n s))"
    and P: "P s"
  shows "P (finalState (perform L call s))"
  by (rule perform_preserves_this [where P = P]) (use assms in auto)

lemma perform_preserves:
  assumes mark: "\<And>e rc ul s. P s \<Longrightarrow> rc \<in> set (registeredComponents' s) \<Longrightarrow> P (markUpgraded e rc ul s)"
    and inst: "\<And>e rc ul s. P s \<Longrightarrow> rc \<in> set (registeredComponents' s) \<Longrightarrow> P (instantiated e rc ul s)"
    and disp: "\<And>e s. P s \<Longrightarrow> P (upgrading e s)"
    and reg: "\<And>config s. P s \<Longrightarrow> P (finalState (registerInternal config s))"
    and cb: "\<And>n c s. P s \<Longrightarrow> P (finalState (registerUpgradedCallbackInternal n c s))"
    and dec: "\<And>c s. P s \<Longrightarrow> P (finalState (deconstructComponentInternal c s))"
    and P: "P s"
  shows "P (finalState (perform L call s))"
proof (rule perform_preserves_calls [where P = P])
  fix element opt and s :: State
  assume "P s"
  let ?Q = "\<lambda>s'. P s' \<and> registeredComponents' s' = registeredComponents' s"
  have "?Q (finalState (upgradeElementInternal L element opt s))"
    by (rule upgradeElementInternal_preserves [where P = ?Q]) (use \<open>P s\<close> mark inst disp in auto)
  then show "P (finalState (upgradeElementInternal L element opt s))" by simp
next
  fix n and s :: State
  assume "P s"
  then show "P (finalState (downgradeNode n s))"
    unfolding downgradeNode_def by (rule forEach_preserves [rotated]) (use dec in auto)
qed (use reg cb P in auto)

lemma runCalls_preserves:
  assumes "\<And>c s. P s \<Longrightarrow> P (finalState (perform L c s))" and "P s"
  shows "P (runCalls L calls s)"
  using assms(2) by (induction calls arbitrary: s) (auto intro: assms(1))

subsection \<open>Registration keeps the type names unique\<close>

lemma find_snd_absent: "name \<notin> className ` set cs \<Longrightarrow> snd (findRegisteredClass' name r cs) = cs"
  by (induction cs) (auto split: option.splits prod.splits)

lemma find_fst_Some_replace:
  "name \<in> className ` set cs \<Longrightarrow> fst (findRegisteredClass' name (Some r) cs) = Some r"
  by (induction cs) (auto split: prod.splits)

lemma registerInternal_eq:
  "registerInternal config s =
     (if prototypeHasConfigProperty (config_constructor config) then Thrown ReservedPropertyDefined s
      else Returned (s\<lparr>registeredComponents' :=
        (if config_classAsString config \<in> className ` set (registeredComponents' s)
         then snd (findRegisteredClass' (config_classAsString config) (Some (newConfigOf config))
                (registeredComponents' s))
         else registeredComponents' s @ [newConfigOf config])\<rparr>))"
proof -
  let ?r = "newConfigOf config" and ?n = "config_classAsString config" and ?cs = "registeredComponents' s"
  have unfold: "registerInternal config s =
     (if prototypeHasConfigProperty (config_constructor config) then Thrown ReservedPropertyDefined s
      else (case findRegisteredClass' ?n (Some ?r) ?cs of
              (found, components) \<Rightarrow>
                (case found of
                   None \<Rightarrow> Returned (s\<lparr>registeredComponents' := components @ [?r]\<rparr>)
                 | Some c \<Rightarrow> Returned (s\<lparr>registeredComponents' := components\<rparr>))))"
    unfolding registerInternal_def newConfigOf_def Let_def by (rule refl)
  obtain found components where fc: "findRegisteredClass' ?n (Some ?r) ?cs = (found, components)"
    by (cases "findRegisteredClass' ?n (Some ?r) ?cs")
  show ?thesis
  proof (cases "?n \<in> className ` set ?cs")
    case True
    from find_fst_Some_replace [OF this, of ?r] fc have "found = Some ?r" by simp
    with fc True show ?thesis unfolding unfold by simp
  next
    case False
    with fc have "found = None" "components = ?cs"
      using find_fst_None [of ?n "Some ?r" ?cs] find_snd_absent [of ?n ?cs "Some ?r"] by simp_all
    with fc False show ?thesis unfolding unfold by simp
  qed
qed

lemma register_names:
  "map className (registeredComponents' (finalState (registerInternal config s))) =
     (if prototypeHasConfigProperty (config_constructor config) \<or>
         config_classAsString config \<in> className ` set (registeredComponents' s)
      then map className (registeredComponents' s)
      else map className (registeredComponents' s) @ [config_classAsString config])"
  using find_names [of "newConfigOf config" "config_classAsString config" "registeredComponents' s"]
  by (simp add: registerInternal_eq) (simp add: newConfigOf_def)

lemma register_uniqueNames:
  "uniqueNames s \<Longrightarrow> uniqueNames (finalState (registerInternal config s))"
  by (auto simp: uniqueNames_def register_names)

lemma callback_names:
  "map className (registeredComponents' (finalState (registerUpgradedCallbackInternal n c s))) =
     map className (registeredComponents' s)"
proof (cases "fst (findRegisteredClass' n None (registeredComponents' s))")
  case None
  then show ?thesis by (simp add: registerUpgradedCallbackInternal_def)
next
  case (Some d)
  from find_fst_mem [OF this] have "className (d\<lparr>callbacks := callbacks d @ [c]\<rparr>) = n" by simp
  from find_names [OF this] Some show ?thesis
    by (simp add: registerUpgradedCallbackInternal_def)
qed

lemma perform_uniqueNames: "uniqueNames s \<Longrightarrow> uniqueNames (finalState (perform L call s))"
proof (rule perform_preserves [where P = uniqueNames])
  fix n c s assume "uniqueNames s"
  then show "uniqueNames (finalState (registerUpgradedCallbackInternal n c s))"
    by (simp add: uniqueNames_def callback_names)
qed (simp_all add: register_uniqueNames, simp_all add: uniqueNames_def)

lemma runCalls_uniqueNames: "initial s0 \<Longrightarrow> uniqueNames (runCalls L calls s0)"
  by (rule runCalls_preserves [where P = uniqueNames])
    (simp_all add: perform_uniqueNames, simp add: initial_def uniqueNames_def)

lemma distinct_first_index:
  "distinct (map f xs) \<Longrightarrow> i < length xs \<Longrightarrow> j < i \<Longrightarrow> f (xs ! j) \<noteq> f (xs ! i)"
  by (simp add: distinct_conv_nth)

subsection \<open>Splitting and joining the attribute\<close>

lemma split_comma_nonempty [simp]: "split_comma s \<noteq> []"
  by (induction s) (auto split: list.splits)






lemma upgradedList_nonempty [simp]: "getUpgradedListOfElement' s element \<noteq> []"
  by (simp add: getUpgradedListOfElement'_def split: option.splits)

lemma upgradedList_upgrading [simp]:
  "getUpgradedListOfElement' (upgrading e s) element = getUpgradedListOfElement' s element"
  by (simp add: getUpgradedListOfElement'_def)

lemma isElementUpgraded_upgrading [simp]:
  "isElementUpgraded' (upgrading e s) element T = isElementUpgraded' s element T"
  by (simp add: isElementUpgraded'_def)



subsection \<open>The two page-wide upgrades\<close>

lemma forEach_cong_inv:
  assumes "\<And>x s. x \<in> set xs \<Longrightarrow> I s \<Longrightarrow> f x s = g x s"
    and "\<And>x s. x \<in> set xs \<Longrightarrow> I s \<Longrightarrow> I (finalState (f x s))"
    and "I s"
  shows "forEach f xs s = forEach g xs s"
  using assms
proof (induction xs arbitrary: s)
  case Nil
  then show ?case by simp
next
  case (Cons x xs)
  have eq: "f x s = g x s" and inv: "I (finalState (f x s))"
    using Cons.prems by simp_all
  show ?case
  proof (cases "f x s")
    case (Returned s1)
    with inv have "I s1" by simp
    then have "forEach f xs s1 = forEach g xs s1"
      using Cons.prems(1,2) by (intro Cons.IH) auto
    with Returned eq show ?thesis by simp
  next
    case (Thrown e s1)
    moreover from Thrown eq have "g x s = Thrown e s1" by simp
    ultimately show ?thesis by simp
  next
    case (Unmodelled s1)
    moreover from Unmodelled eq have "g x s = Unmodelled s1" by simp
    ultimately show ?thesis by simp
  qed
qed

lemma find_distinct:
  "distinct (map className cs) \<Longrightarrow> c \<in> set cs \<Longrightarrow>
   fst (findRegisteredClass' (className c) None cs) = Some c"
  by (induction cs) (auto split: prod.splits)

lemma upgradeElementInternal_registered [simp]:
  "registeredComponents' (finalState (upgradeElementInternal L element optJsClass s)) =
     registeredComponents' s"
  by (rule upgradeElementInternal_preserves
      [where P = "\<lambda>s'. registeredComponents' s' = registeredComponents' s"]) simp_all

lemma upgradeDomClass_registered [simp]:
  "registeredComponents' (finalState (upgradeDomClass L jsClass optCssClass s)) =
     registeredComponents' s"
  by (rule upgradeDomClass_preserves
      [where P = "\<lambda>s'. registeredComponents' s' = registeredComponents' s"]) simp_all

lemma upgradeDom_eq_upgradeAllRegistered:
  assumes "uniqueNames s"
  shows "upgradeDomInternal L None None s = upgradeAllRegisteredInternal L s"
proof -
  let ?I = "\<lambda>s'. registeredComponents' s' = registeredComponents' s"
  have same: "upgradeDomClass L (Some (className c)) (Some (cssClass c)) s' =
      upgradeDomInternal L (Some (className c)) None s'"
    if "c \<in> set (registeredComponents' s)" and "?I s'" for c s'
    using find_distinct [of "registeredComponents' s" c] assms that
    by (simp add: upgradeDomInternal_def upgradeDomClass_def uniqueNames_def)
  have "forEach (\<lambda>component.
            upgradeDomClass L (Some (className component)) (Some (cssClass component)))
          (registeredComponents' s) s =
        forEach (\<lambda>component. upgradeDomInternal L (Some (className component)) None)
          (registeredComponents' s) s"
  proof (rule forEach_cong_inv [where I = ?I])
    fix c and s' :: State
    assume "c \<in> set (registeredComponents' s)" and "?I s'"
    then show "upgradeDomClass L (Some (className c)) (Some (cssClass c)) s' =
      upgradeDomInternal L (Some (className c)) None s'"
      by (rule same)
  qed simp_all
  then show ?thesis
    by (simp add: upgradeDomInternal_def upgradeAllRegisteredInternal_def)
qed

subsection \<open>The traversal of the bulk upgrade\<close>

lemma forEach_append:
  "forEach f (xs @ ys) s =
     (case forEach f xs s of Returned s1 \<Rightarrow> forEach f ys s1 | Thrown e s1 \<Rightarrow> Thrown e s1
        | Unmodelled s1 \<Rightarrow> Unmodelled s1)"
  by (induction xs arbitrary: s) (auto split: Outcome.splits)

text \<open>
  No call changes what the host and the client decide, and every call only adds to the
  trace. So a tree that client code leaves alone from some state on is the same tree
  in every later state.
\<close>

lemma laterThan_refl [simp]: "laterThan s s"
  by (simp add: laterThan_def)

lemma laterThan_upgradeElementInternal:
  "laterThan s s1 \<Longrightarrow> laterThan s (finalState (upgradeElementInternal L element optJsClass s1))"
  by (rule upgradeElementInternal_preserves [where P = "laterThan s"])
    (auto simp: laterThan_def)

lemma treeAt_laterThan:
  "\<forall>t. attached s (trace s @ t) = attached s (trace s) \<Longrightarrow> laterThan s s1 \<Longrightarrow>
   treeAt s1 = treeAt s \<and> (\<forall>t. attached s1 (trace s1 @ t) = attached s1 (trace s1))"
  by (auto simp: laterThan_def treeAt_def)

lemma laterThan_trans: "laterThan s s1 \<Longrightarrow> laterThan s1 s2 \<Longrightarrow> laterThan s s2"
  by (auto simp: laterThan_def)

lemma subtreePreorder_skip: "\<not> isHTMLElement n \<Longrightarrow> subtreePreorder att n = []"
  by (cases n) (simp add: isHTMLElement_def)

lemma subtreePreorder_visit:
  "isHTMLElement n \<Longrightarrow>
   subtreePreorder att n =
     n # concat (map (subtreePreorder att)
           (filter (\<lambda>c. isElement c \<and> att (nodeId n) (nodeId c)) (childNodes n)))"
  by (cases n) (simp add: isHTMLElement_def)

declare subtreePreorder.simps [simp del]

lemma children_treeAt:
  "children s n = filter (\<lambda>c. isElement c \<and> treeAt s (nodeId n) (nodeId c)) (childNodes n)"
  by (simp add: children_def isAttached_def treeAt_def)

lemma upgradeElementsLoop_laterThan:
  "laterThan s0 s \<Longrightarrow> laterThan s0 (finalState (upgradeElementsLoop L ns s))"
  by (rule upgradeElementsLoop_preserves [where P = "laterThan s0"])
    (simp_all add: laterThan_upgradeElementInternal)

lemma upgradeElementsLoop_preorder:
  "\<forall>t. attached s (trace s @ t) = attached s (trace s) \<Longrightarrow>
   upgradeElementsLoop L ns s =
     forEach (\<lambda>element. upgradeElementInternal L element None)
       (concat (map (subtreePreorder (treeAt s)) ns)) s"
proof (induction L ns s rule: upgradeElementsLoop.induct)
  case (1 L s)
  then show ?case by simp
next
  case (2 L element rest s)
  note fixed = "2.prems"
  let ?up = "\<lambda>element. upgradeElementInternal L element None"
  show ?case
  proof (cases "isHTMLElement element")
    case False
    with 2 show ?thesis by (simp add: subtreePreorder_skip)
  next
    case True
    show ?thesis
    proof (cases "upgradeElementInternal L element None s")
      case (Thrown e s1)
      with True show ?thesis by (simp add: subtreePreorder_visit)
    next
      case (Unmodelled s1)
      with True show ?thesis by (simp add: subtreePreorder_visit)
    next
      case (Returned s1)
      have "laterThan s s1"
        using laterThan_upgradeElementInternal [of s s L element None] Returned by simp
      from treeAt_laterThan [OF fixed this]
      have t1: "treeAt s1 = treeAt s" and f1: "\<forall>t. attached s1 (trace s1 @ t) = attached s1 (trace s1)"
        by simp_all
      have kids: "children s1 element =
          filter (\<lambda>c. isElement c \<and> treeAt s (nodeId element) (nodeId c)) (childNodes element)"
        by (simp add: children_treeAt t1)
      have pre: "subtreePreorder (treeAt s) element =
          element # concat (map (subtreePreorder (treeAt s)) (children s1 element))"
        using True by (simp add: subtreePreorder_visit kids)
      show ?thesis
      proof (cases "length (children s1 element) > 0")
        case False
        with "2.IH"(3) [OF True Returned _ f1] True Returned pre t1 show ?thesis by simp
      next
        case nonempty: True
        note sub = "2.IH"(1) [OF True Returned nonempty f1]
        show ?thesis
        proof (cases "upgradeElementsLoop L (children s1 element) s1")
          case (Thrown e s2)
          with sub have fe: "forEach ?up
              (concat (map (subtreePreorder (treeAt s)) (children s1 element))) s1 = Thrown e s2"
            by (simp add: t1)
          from Thrown True Returned nonempty pre show ?thesis
            by (simp add: forEach_append fe)
        next
          case (Unmodelled s2)
          with sub have fe: "forEach ?up
              (concat (map (subtreePreorder (treeAt s)) (children s1 element))) s1 = Unmodelled s2"
            by (simp add: t1)
          from Unmodelled True Returned nonempty pre show ?thesis
            by (simp add: forEach_append fe)
        next
          case inner: (Returned s2)
          with sub have fe: "forEach ?up
              (concat (map (subtreePreorder (treeAt s)) (children s1 element))) s1 = Returned s2"
            by (simp add: t1)
          have "laterThan s1 s2"
            using upgradeElementsLoop_laterThan [of s1 s1 L "children s1 element"] inner by simp
          from treeAt_laterThan [OF f1 this] t1
          have t2: "treeAt s2 = treeAt s" and f2: "\<forall>t. attached s2 (trace s2 @ t) = attached s2 (trace s2)"
            by simp_all
          from "2.IH"(2) [OF True Returned nonempty inner f2] inner True Returned nonempty pre t2
          show ?thesis by (simp add: forEach_append fe)
        qed
      qed
    qed
  qed
qed

lemma subtreePreorder_htmlTree:
  "htmlTree n \<Longrightarrow> subtreePreorder att n = filter isElement (descendantsOrSelf att n)"
proof (induction n)
  case (Node i k cl ch)
  show ?case
  proof (cases k)
    case HTMLElementNode
    have "concat (map (subtreePreorder att) (filter (\<lambda>c. isElement c \<and> att i (nodeId c)) xs)) =
        filter isElement (concat (map (descendantsOrSelf att) (filter (\<lambda>c. att i (nodeId c)) xs)))"
      if "set xs \<subseteq> set ch" for xs
      using that
    proof (induction xs)
      case Nil
      then show ?case by simp
    next
      case (Cons c xs)
      then have c: "c \<in> set ch" and h: "htmlTree c"
        using Node.prems HTMLElementNode by (auto simp: list_all_iff)
      have "(if isElement c then subtreePreorder att c else []) =
          filter isElement (descendantsOrSelf att c)"
      proof (cases "isElement c")
        case True
        with Node.IH [OF c h] show ?thesis by simp
      next
        case False
        with h show ?thesis by (cases c) (auto simp: isElement_def split: NodeKind.splits)
      qed
      with Cons show ?case by auto
    qed
    from this [of ch] have kids:
      "concat (map (subtreePreorder att) (filter (\<lambda>c. isElement c \<and> att i (nodeId c)) ch)) =
        filter isElement (concat (map (descendantsOrSelf att) (filter (\<lambda>c. att i (nodeId c)) ch)))"
      by simp
    have "isHTMLElement (Node i k cl ch)" "isElement (Node i k cl ch)"
      using HTMLElementNode by (simp_all add: isHTMLElement_def isElement_def)
    then show ?thesis
      by (simp add: subtreePreorder_visit kids)
  next
    case OtherElementNode
    with Node.prems show ?thesis by simp
  next
    case NonElementNode
    with Node.prems show ?thesis
      by (simp add: subtreePreorder_skip isHTMLElement_def isElement_def)
  qed
qed

lemma preorder_htmlTrees:
  "list_all htmlTree ns \<Longrightarrow>
   concat (map (subtreePreorder att) ns) =
     filter isElement (concat (map (descendantsOrSelf att) ns))"
  by (induction ns) (simp_all add: subtreePreorder_htmlTree)

lemma upgradeElementsLoop_subtrees: "upgradeElementsLoop L ns s = upgradeSubtrees L ns s"
proof (induction L ns s rule: upgradeElementsLoop.induct)
  case (1 L s)
  then show ?case by simp
next
  case (2 L element rest s)
  show ?case
  proof (cases "isHTMLElement element")
    case False
    with 2 show ?thesis by simp
  next
    case True
    show ?thesis
    proof (cases "upgradeElementInternal L element None s")
      case (Thrown e s1)
      with True show ?thesis by simp
    next
      case (Unmodelled s1)
      with True show ?thesis by simp
    next
      case (Returned s1)
      show ?thesis
      proof (cases "length (children s1 element) > 0")
        case False
        with "2.IH"(3) [OF True Returned] True Returned show ?thesis by simp
      next
        case nonempty: True
        note sub = "2.IH"(1) [OF True Returned nonempty]
        show ?thesis
        proof (cases "upgradeElementsLoop L (children s1 element) s1")
          case (Thrown e s2)
          with sub have "upgradeSubtrees L (children s1 element) s1 = Thrown e s2" by simp
          with Thrown True Returned nonempty show ?thesis by simp
        next
          case (Unmodelled s2)
          with sub have "upgradeSubtrees L (children s1 element) s1 = Unmodelled s2" by simp
          with Unmodelled True Returned nonempty show ?thesis by simp
        next
          case inner: (Returned s2)
          with sub have "upgradeSubtrees L (children s1 element) s1 = Returned s2" by simp
          with inner "2.IH"(2) [OF True Returned nonempty inner] True Returned nonempty
          show ?thesis by simp
        qed
      qed
    qed
  qed
qed

lemma upgradeSubtrees_forEach: "upgradeSubtrees L ns s = forEach (upgradeSubtree L) ns s"
  by (induction ns arbitrary: s) (auto split: Outcome.splits)

lemma upgradeSubtrees_skip:
  "\<not> isHTMLElement n \<Longrightarrow> upgradeSubtrees L (n # ns) s = upgradeSubtrees L ns s"
  by simp

subsection \<open>The invariant of the created components\<close>

lemma liveInstancesSound_iff:
  "liveInstancesSound s = (\<forall>c \<in> set (createdComponents' s).
      dataUpgraded s (element' c) \<noteq> None \<and>
      (\<exists>d. mdlComponentConfigInternal' c = Some d \<and>
           className d \<in> className ` set (registeredComponents' s)))"
  by (auto simp: liveInstancesSound_def list_all_iff split: option.splits)

lemma register_fields [simp]:
  "createdComponents' (finalState (registerInternal config s)) = createdComponents' s"
  "dataUpgraded (finalState (registerInternal config s)) = dataUpgraded s"
  by (simp_all add: registerInternal_eq)

lemma callback_fields [simp]:
  "createdComponents' (finalState (registerUpgradedCallbackInternal n c s)) = createdComponents' s"
  "dataUpgraded (finalState (registerUpgradedCallbackInternal n c s)) = dataUpgraded s"
  by (simp_all add: registerUpgradedCallbackInternal_def split: option.splits)

lemma register_names_mono:
  "x \<in> className ` set (registeredComponents' s) \<Longrightarrow>
   x \<in> className ` set (registeredComponents' (finalState (registerInternal config s)))"
  using arg_cong [OF register_names [of config s], of set] by (auto split: if_splits)

lemma callback_names_set:
  "className ` set (registeredComponents' (finalState (registerUpgradedCallbackInternal n c s))) =
   className ` set (registeredComponents' s)"
  using arg_cong [OF callback_names [of n c s], of set] by simp

lemma deconstruct_liveInstancesSound:
  "liveInstancesSound s \<Longrightarrow> liveInstancesSound (finalState (deconstructComponentInternal c s))"
  unfolding liveInstancesSound_iff
  using deconstruct_created_subset [of c s] deconstruct_dataUpgraded_mono [of s _ c]
  by (auto simp: subset_iff)

lemma perform_liveInstancesSound:
  "liveInstancesSound s \<Longrightarrow> liveInstancesSound (finalState (perform L call s))"
proof (rule perform_preserves [where P = liveInstancesSound])
  fix e rc ul and s :: State
  assume "liveInstancesSound s" and "rc \<in> set (registeredComponents' s)"
  then show "liveInstancesSound (markUpgraded e rc ul s)"
    by (auto simp: liveInstancesSound_iff)
next
  fix e rc ul and s :: State
  assume "liveInstancesSound s" and "rc \<in> set (registeredComponents' s)"
  then show "liveInstancesSound (instantiated e rc ul s)"
    by (auto simp: liveInstancesSound_iff)
next
  fix e and s :: State
  assume "liveInstancesSound s"
  then show "liveInstancesSound (upgrading e s)" by (simp add: liveInstancesSound_iff)
next
  fix config and s :: State
  assume "liveInstancesSound s"
  then show "liveInstancesSound (finalState (registerInternal config s))"
    unfolding liveInstancesSound_iff by (fastforce intro: register_names_mono)
next
  fix n c and s :: State
  assume "liveInstancesSound s"
  then show "liveInstancesSound (finalState (registerUpgradedCallbackInternal n c s))"
    unfolding liveInstancesSound_iff callback_names_set by simp
next
  fix c and s :: State
  assume "liveInstancesSound s"
  then show "liveInstancesSound (finalState (deconstructComponentInternal c s))"
    by (rule deconstruct_liveInstancesSound)
qed

lemma runCalls_liveInstancesSound: "initial s0 \<Longrightarrow> liveInstancesSound (runCalls L calls s0)"
  by (rule runCalls_preserves [where P = liveInstancesSound])
    (simp_all add: perform_liveInstancesSound, simp add: initial_def liveInstancesSound_def)

lemma deconstruct_returns:
  "dataUpgraded s (element' c) \<noteq> None \<Longrightarrow> mdlComponentConfigInternal' c \<noteq> None \<Longrightarrow>
   isReturned (deconstructComponentInternal (Some c) s)"
  by (auto simp: deconstructComponentInternal_def Let_def split: option.splits)

lemma forEach_returns_inv:
  assumes "\<And>x s. x \<in> set xs \<Longrightarrow> Q s \<Longrightarrow> isReturned (body x s) \<and> Q (finalState (body x s))"
    and "Q s"
  shows "isReturned (forEach body xs s) \<and> Q (finalState (forEach body xs s))"
  using assms
proof (induction xs arbitrary: s)
  case Nil
  then show ?case by simp
next
  case (Cons x xs)
  from Cons.prems(1) [of x s] Cons.prems(2)
  obtain s1 where s1: "body x s = Returned s1" "Q s1" by (cases "body x s") auto
  have "isReturned (forEach body xs s1) \<and> Q (finalState (forEach body xs s1))"
    using Cons.prems(1) s1(2) by (intro Cons.IH) auto
  with s1 show ?case by simp
qed

lemma downgradeNode_returns:
  assumes "liveInstancesSound s"
  shows "isReturned (downgradeNode n s) \<and> liveInstancesSound (finalState (downgradeNode n s))"
proof -
  let ?items = "filter (\<lambda>item. element' item = nodeId n) (createdComponents' s)"
  let ?Q = "\<lambda>s'. liveInstancesSound s' \<and> (\<forall>c \<in> set ?items. dataUpgraded s' (element' c) \<noteq> None)"
  have "isReturned (forEach (\<lambda>item. deconstructComponentInternal (Some item)) ?items s) \<and>
      ?Q (finalState (forEach (\<lambda>item. deconstructComponentInternal (Some item)) ?items s))"
  proof (rule forEach_returns_inv [where Q = ?Q])
    show "?Q s" using assms by (auto simp: liveInstancesSound_iff)
  next
    fix x and s' :: State
    assume x: "x \<in> set ?items" and Q: "?Q s'"
    from x assms have "mdlComponentConfigInternal' x \<noteq> None"
      by (auto simp: liveInstancesSound_iff)
    moreover from x Q have "dataUpgraded s' (element' x) \<noteq> None" by blast
    ultimately have "isReturned (deconstructComponentInternal (Some x) s')"
      by (rule deconstruct_returns [rotated])
    moreover have "liveInstancesSound (finalState (deconstructComponentInternal (Some x) s'))"
      using Q by (intro deconstruct_liveInstancesSound) simp
    moreover have "\<forall>c \<in> set ?items. dataUpgraded (finalState (deconstructComponentInternal (Some x) s')) (element' c) \<noteq> None"
      using Q deconstruct_dataUpgraded_mono by blast
    ultimately show "isReturned (deconstructComponentInternal (Some x) s') \<and>
        ?Q (finalState (deconstructComponentInternal (Some x) s'))" by blast
  qed
  then show ?thesis by (simp add: downgradeNode_def)
qed

lemma downgradeNodes_returns:
  assumes "liveInstancesSound s"
  shows "(case nodes of
            HTMLCollectionOf xs \<Rightarrow> downgradeNodesInternal nodes s = Thrown InvalidDowngradeArgument s
          | _ \<Rightarrow> isReturned (downgradeNodesInternal nodes s))"
proof -
  have loop: "isReturned (forEach downgradeNode xs s)" for xs
    using forEach_returns_inv [where Q = liveInstancesSound and body = downgradeNode and xs = xs]
      downgradeNode_returns assms by blast
  show ?thesis
    using loop downgradeNode_returns [OF assms]
    by (cases nodes) (simp_all add: downgradeNodesInternal_def)
qed

text \<open>
  As long as no call replaces a descriptor, every created component carries a descriptor
  that has the constant properties of one in the array.
\<close>

lemma pointsAtRegistered_iff:
  "pointsAtRegistered s c =
     (\<exists>d. mdlComponentConfigInternal' c = Some d \<and>
          (\<exists>r \<in> set (registeredComponents' s). sameConstants d r))"
  by (auto simp: pointsAtRegistered_def list_ex_iff split: option.splits)

lemma sameConstants_refl [simp]: "sameConstants d d"
  by (simp add: sameConstants_def)

lemma sameConstants_mem: "x \<in> set cs \<Longrightarrow> \<exists>y \<in> set cs. sameConstants x y"
  by (rule bexI [of _ x]) simp_all

lemma find_replace_same:
  "fst (findRegisteredClass' name None cs) = Some c \<Longrightarrow> sameConstants c r \<Longrightarrow> x \<in> set cs \<Longrightarrow>
   \<exists>y \<in> set (snd (findRegisteredClass' name (Some r) cs)). sameConstants x y"
proof (induction cs)
  case Nil
  then show ?case by simp
next
  case (Cons c' cs)
  show ?case
  proof (cases "className c' = name")
    case True
    with Cons.prems(1) have c: "c = c'" by simp
    show ?thesis
    proof (cases "x = c'")
      case True
      with c Cons.prems(2) \<open>className c' = name\<close> show ?thesis by simp
    next
      case False
      with Cons.prems(3) have "x \<in> set cs" by simp
      with True show ?thesis by (auto intro: sameConstants_mem)
    qed
  next
    case False
    with Cons.prems(1) have f: "fst (findRegisteredClass' name None cs) = Some c"
      by (simp split: prod.splits)
    show ?thesis
    proof (cases "x = c'")
      case True
      with False show ?thesis by (auto split: prod.splits)
    next
      case x: False
      with Cons.prems(3) have "x \<in> set cs" by simp
      from Cons.IH [OF f Cons.prems(2) this] False show ?thesis
        by (auto split: prod.splits)
    qed
  qed
qed

lemma callback_same:
  assumes "x \<in> set (registeredComponents' s)"
  shows "\<exists>y \<in> set (registeredComponents' (finalState (registerUpgradedCallbackInternal n c s))).
           sameConstants x y"
proof (cases "fst (findRegisteredClass' n None (registeredComponents' s))")
  case None
  with assms show ?thesis
    by (auto simp: registerUpgradedCallbackInternal_def intro: sameConstants_mem)
next
  case (Some d)
  have "sameConstants d (d\<lparr>callbacks := callbacks d @ [c]\<rparr>)" by (simp add: sameConstants_def)
  from find_replace_same [OF Some this assms] Some show ?thesis
    by (simp add: registerUpgradedCallbackInternal_def)
qed

lemma sameConstants_trans: "sameConstants a b \<Longrightarrow> sameConstants b c \<Longrightarrow> sameConstants a c"
  by (simp add: sameConstants_def)

lemma perform_pointsAtRegistered:
  assumes "list_all (pointsAtRegistered s) (createdComponents' s)" and "\<not> replacesDescriptor call s"
  shows "list_all (pointsAtRegistered (finalState (perform L call s)))
           (createdComponents' (finalState (perform L call s)))"
proof (rule perform_preserves_this
    [where P = "\<lambda>s. list_all (pointsAtRegistered s) (createdComponents' s)"])
  fix element opt and s :: State
  assume a: "list_all (pointsAtRegistered s) (createdComponents' s)"
  let ?P = "\<lambda>s'. list_all (pointsAtRegistered s') (createdComponents' s') \<and>
      registeredComponents' s' = registeredComponents' s"
  have "?P (finalState (upgradeElementInternal L element opt s))"
    by (rule upgradeElementInternal_preserves [where P = ?P])
      (use a in \<open>auto simp: list_all_iff pointsAtRegistered_iff intro: sameConstants_mem\<close>)
  then show "list_all (pointsAtRegistered (finalState (upgradeElementInternal L element opt s)))
      (createdComponents' (finalState (upgradeElementInternal L element opt s)))" by simp
next
  fix config
  assume "call = Register config"
  with assms(2) have "prototypeHasConfigProperty (config_constructor config) \<or>
      config_classAsString config \<notin> className ` set (registeredComponents' s)"
    by (auto simp: list_ex_iff)
  then have "set (registeredComponents' s) \<subseteq>
      set (registeredComponents' (finalState (registerInternal config s)))"
    by (auto simp: registerInternal_eq)
  with assms(1)
  show "list_all (pointsAtRegistered (finalState (registerInternal config s)))
      (createdComponents' (finalState (registerInternal config s)))"
    unfolding list_all_iff pointsAtRegistered_iff register_fields by blast
next
  fix n c and s :: State
  assume a: "list_all (pointsAtRegistered s) (createdComponents' s)"
  show "list_all (pointsAtRegistered (finalState (registerUpgradedCallbackInternal n c s)))
      (createdComponents' (finalState (registerUpgradedCallbackInternal n c s)))"
    unfolding list_all_iff pointsAtRegistered_iff
  proof
    fix x
    assume "x \<in> set (createdComponents' (finalState (registerUpgradedCallbackInternal n c s)))"
    with a obtain d r where d: "mdlComponentConfigInternal' x = Some d"
      "r \<in> set (registeredComponents' s)" "sameConstants d r"
      by (auto simp: list_all_iff pointsAtRegistered_iff)
    from callback_same [OF d(2), of n c] obtain y where
      "y \<in> set (registeredComponents' (finalState (registerUpgradedCallbackInternal n c s)))"
      "sameConstants r y" by blast
    with d show "\<exists>d. mdlComponentConfigInternal' x = Some d \<and>
        (\<exists>r \<in> set (registeredComponents' (finalState (registerUpgradedCallbackInternal n c s))).
           sameConstants d r)"
      using sameConstants_trans by blast
  qed
next
  fix n and s :: State
  assume a: "list_all (pointsAtRegistered s) (createdComponents' s)"
  let ?P = "\<lambda>s'. set (createdComponents' s') \<subseteq> set (createdComponents' s) \<and>
      registeredComponents' s' = registeredComponents' s"
  have "?P (finalState (downgradeNode n s))"
    unfolding downgradeNode_def
  proof (rule forEach_preserves [where P = ?P])
    fix x and s' :: State
    assume "?P s'"
    then show "?P (finalState (deconstructComponentInternal (Some x) s'))"
      using deconstruct_created_subset [of "Some x" s'] by auto
  qed simp
  with a show "list_all (pointsAtRegistered (finalState (downgradeNode n s)))
      (createdComponents' (finalState (downgradeNode n s)))"
    by (auto simp: list_all_iff pointsAtRegistered_iff)
qed (use assms in auto)

lemma runCalls_pointsAtRegistered:
  "list_all (pointsAtRegistered s) (createdComponents' s) \<Longrightarrow> neverReplaces L calls s \<Longrightarrow>
   list_all (pointsAtRegistered (runCalls L calls s)) (createdComponents' (runCalls L calls s))"
proof (induction calls arbitrary: s)
  case Nil
  then show ?case by simp
next
  case (Cons c cs)
  from Cons.prems have "list_all (pointsAtRegistered (finalState (perform L c s)))
      (createdComponents' (finalState (perform L c s)))"
    by (intro perform_pointsAtRegistered) auto
  with Cons show ?case by simp
qed

subsection \<open>The teardown of a component\<close>

text \<open>
  Line 372 reads the property \<^verbatim>\<open>classAsString\<close> of the descriptor, which has
  \<^verbatim>\<open>className\<close> and no \<^verbatim>\<open>classAsString\<close>: the index is -1 and line 373 deletes the last
  entry of the list, whatever the component.
\<close>

lemma splice1_last [simp]: "splice1 xs (-1) = butlast xs"
proof (cases "xs = []")
  case True
  then show ?thesis by (simp add: splice1_def)
next
  case False
  then have "nat (int (length xs) - 1) = length xs - 1" by (cases xs) simp_all
  with False show ?thesis by (simp add: splice1_def Let_def butlast_conv_take)
qed

lemma getProperty_classAsString [simp]: "getProperty config ''classAsString'' = Undefined"
  by (simp add: getProperty_def)










subsection \<open>The attribute names the live instances\<close>

text \<open>
  When no registered type name has a comma, every public call keeps the upgraded list
  of each element in step with the live instances of the element: the list ends with
  their type names. A teardown deletes the last entry, so a downgrade of a node, which
  tears down every instance of the node, deletes exactly those names.
\<close>

lemma upgradedListAt_nonempty [simp]: "upgradedListAt s e \<noteq> []"
  by (simp add: upgradedListAt_def split: option.splits)
























subsection \<open>Evaluating the scenarios\<close>

text \<open>The definitions that the evaluation of a concrete run unfolds.\<close>

lemmas eval_defs =
  registerInternal_def registerUpgradedCallbackInternal_def upgradeElementInternal_def
  upgradeAllRegisteredInternal_def upgradeDomInternal_def upgradeDomClass_def
  upgradeElementsInternal_def downgradeNodesInternal_def downgradeNode_def
  deconstructComponentInternal_def querySelectorAll_def
  getUpgradedListOfElement'_def isElementUpgraded'_def indexOf_def indexOfValue_def splice1_def
  getProperty_def truthy_def createEvent'_def dispatchEvent_def setAttribute_def construct_def
  isElement_def isHTMLElement_def children_def isAttached_def instancesOf_def
  setProperty_def memberOf_def plainClassName_def isNameStart_def isNameChar_def
  widgetConfig_def widgetConstructor_def freshPage_def widgetElement_def twoClassElement_def
  neverCancels_def alwaysCancels_def Let_def upgradeEach.simps(3)

text \<open>
  A type whose name is a member of the element. With the name \<^verbatim>\<open>children\<close> line 254 throws
  a \<^verbatim>\<open>TypeError\<close>, after the attribute was written and the instance was put into the
  array, and before \<^verbatim>\<open>mdl-componentupgraded\<close> is dispatched. With the name
  \<^verbatim>\<open>getAttribute\<close> line 254 shadows the method of the element, and the call is none that
  this model follows further.
\<close>

lemma upgrade_with_type_named_children:
  "(let s = finalState (registerInternal (widgetConfig ''children'' ''w-js'')
              (freshPage [widgetElement]));
        r = upgradeElementInternal neverCancels widgetElement (Some ''children'') s
    in r = Thrown TypeError (finalState r) \<and>
       dataUpgraded (finalState r) 0 = Some '',children'' \<and>
       map element' (createdComponents' (finalState r)) = [0] \<and>
       trace (finalState r) =
         [DispatchEvent 0 (Event ''mdl-componentupgrading'' True True),
          ConstructorCall widgetConstructor 0])"
  by (simp add: eval_defs)

lemma upgrade_with_type_named_getAttribute:
  "(let s = finalState (registerInternal (widgetConfig ''getAttribute'' ''w-js'')
              (freshPage [widgetElement]))
    in \<not> isModelled (upgradeElementInternal neverCancels widgetElement (Some ''getAttribute'') s) \<and>
       \<not> runsModelled neverCancels
           [Register (widgetConfig ''getAttribute'' ''w-js''), UpgradeAllRegistered]
           (freshPage [widgetElement]))"
  by (simp add: eval_defs)

text \<open>
  One teardown. An element with the marker classes of two registered types \<^verbatim>\<open>A\<close> and
  \<^verbatim>\<open>B\<close> is upgraded: the attribute is \<^verbatim>\<open>,A,B\<close> and both instances are live, the one of
  \<^verbatim>\<open>A\<close> first. The teardown of the instance of \<^verbatim>\<open>A\<close> deletes the last entry, which is
  \<^verbatim>\<open>B\<close>: it leaves the attribute \<^verbatim>\<open>,A\<close> with the instance of \<^verbatim>\<open>B\<close> still live, and
  dispatches \<^verbatim>\<open>mdl-componentdowngraded\<close> in that state.
\<close>

lemma teardown_deletes_last_entry:
  "(let s = runCalls neverCancels
       [Register (widgetConfig ''A'' ''a-js''), Register (widgetConfig ''B'' ''b-js''),
        UpgradeElement twoClassElement None] (freshPage [twoClassElement]);
        s1 = finalState (deconstructComponentInternal (Some (createdComponents' s ! 0)) s)
    in dataUpgraded s 0 = Some '',A,B'' \<and>
       map (\<lambda>c. (element' c, map_option className (mdlComponentConfigInternal' c)))
         (createdComponents' s) = [(0, Some ''A''), (0, Some ''B'')] \<and>
       getProperty (newConfigOf (widgetConfig ''A'' ''a-js'')) ''classAsString'' = Undefined \<and>
       dataUpgraded s1 0 = Some '',A'' \<and>
       map (\<lambda>c. (element' c, map_option className (mdlComponentConfigInternal' c)))
         (createdComponents' s1) = [(0, Some ''B'')] \<and>
       last (trace s1) = DispatchEvent 0 (Event ''mdl-componentdowngraded'' True False))"
  by (simp add: eval_defs newConfigOf_def)

section \<open>Registration\<close>

text \<open>
  C1. Whatever public calls have run since the script was loaded, the registry holds at
  most one descriptor per type name. Registering a type name that the descriptor at
  position \<open>i\<close> already carries puts the new descriptor at position \<open>i\<close> and leaves the
  length and every other position as they were; the new descriptor has an empty
  callback list, whatever callbacks the old one had.
\<close>

theorem register_replaces_in_place:
  assumes "initial s0" and "s = runCalls L calls s0"
  shows "distinct (map className (registeredComponents' s)) \<and>
    (i < length (registeredComponents' s) \<and>
     className (registeredComponents' s ! i) = config_classAsString config \<and>
     \<not> prototypeHasConfigProperty (config_constructor config) \<longrightarrow>
       registerInternal config s =
         Returned (s\<lparr>registeredComponents' := (registeredComponents' s)
           [i := \<lparr>classConstructor = config_constructor config,
                  className = config_classAsString config,
                  cssClass = config_cssClass config,
                  widget = (if config_widget config = Undefined then BoolValue True
                            else config_widget config),
                  callbacks = []\<rparr>]\<rparr>))"
proof (intro conjI impI)
  show d: "distinct (map className (registeredComponents' s))"
    using runCalls_uniqueNames [OF assms(1), of L calls] assms(2) by (simp add: uniqueNames_def)
  assume a: "i < length (registeredComponents' s) \<and>
     className (registeredComponents' s ! i) = config_classAsString config \<and>
     \<not> prototypeHasConfigProperty (config_constructor config)"
  let ?new = "\<lparr>classConstructor = config_constructor config,
                  className = config_classAsString config,
                  cssClass = config_cssClass config,
                  widget = (if config_widget config = Undefined then BoolValue True
                            else config_widget config),
                  callbacks = []\<rparr>"
  have "\<forall>j<i. className (registeredComponents' s ! j) \<noteq> config_classAsString config"
    using distinct_first_index [OF d, of i] a by auto
  with a have "findRegisteredClass' (config_classAsString config) (Some ?new) (registeredComponents' s)
      = (Some ?new, (registeredComponents' s)[i := ?new])"
    by (intro find_replace_at) auto
  moreover have "config_classAsString config \<in> className ` set (registeredComponents' s)"
    using a nth_mem [of i "registeredComponents' s"] by (metis imageI)
  ultimately show "registerInternal config s = Returned (s\<lparr>registeredComponents' :=
      (registeredComponents' s)[i := ?new]\<rparr>)"
    using a by (cases "config_widget config = Undefined") (simp_all add: registerInternal_eq newConfigOf_def)
qed

text \<open>
  At a concrete run: two types are registered and the first has a callback; registering
  the first name again with another marker class replaces position 0.
\<close>

theorem register_replaces_in_place_witness:
  "initial (freshPage []) \<and>
   (let s = runCalls neverCancels
        [Register (widgetConfig ''Widget'' ''w-js''), RegisterUpgradedCallback ''Widget'' 7,
         Register (widgetConfig ''Other'' ''o-js'')] (freshPage [])
    in map className (registeredComponents' s) = [''Widget'', ''Other''] \<and>
       callbacks (registeredComponents' s ! 0) = [7] \<and>
       map className (registeredComponents'
         (finalState (registerInternal (widgetConfig ''Widget'' ''w2-js'') s))) = [''Widget'', ''Other''] \<and>
       map cssClass (registeredComponents'
         (finalState (registerInternal (widgetConfig ''Widget'' ''w2-js'') s))) = [''w2-js'', ''o-js''] \<and>
       map callbacks (registeredComponents'
         (finalState (registerInternal (widgetConfig ''Widget'' ''w2-js'') s))) = [[], []])"
proof -
  define s where "s = runCalls neverCancels
        [Register (widgetConfig ''Widget'' ''w-js''), RegisterUpgradedCallback ''Widget'' 7,
         Register (widgetConfig ''Other'' ''o-js'')] (freshPage [])"
  have i: "initial (freshPage [])" by (simp add: initial_def freshPage_def)
  have np: "\<not> prototypeHasConfigProperty widgetConstructor"
    by (simp add: widgetConstructor_def)
  have r: "registeredComponents' s =
      [\<lparr>classConstructor = widgetConstructor, className = ''Widget'', cssClass = ''w-js'',
         widget = BoolValue True, callbacks = [7]\<rparr>,
       \<lparr>classConstructor = widgetConstructor, className = ''Other'', cssClass = ''o-js'',
         widget = BoolValue True, callbacks = []\<rparr>]"
    using np
    by (simp add: s_def registerInternal_def registerUpgradedCallbackInternal_def widgetConfig_def
        freshPage_def Let_def)
  have "registerInternal (widgetConfig ''Widget'' ''w2-js'') s =
      Returned (s\<lparr>registeredComponents' := (registeredComponents' s)
        [0 := \<lparr>classConstructor = widgetConstructor, className = ''Widget'',
               cssClass = ''w2-js'', widget = BoolValue True, callbacks = []\<rparr>]\<rparr>)"
    using register_replaces_in_place [OF i s_def, of 0 "widgetConfig ''Widget'' ''w2-js''"] r np
    by (simp add: widgetConfig_def)
  with i r show ?thesis
    unfolding Let_def s_def [symmetric] by simp
qed

text \<open>
  C7. When the prototype of the constructor already has the property named by
  \<^verbatim>\<open>componentConfigProperty_\<close>, \<^verbatim>\<open>register\<close> throws and the state at the throw is the
  state before the call: nothing was appended or replaced.
\<close>

theorem register_reserved_field_throws:
  "prototypeHasConfigProperty (config_constructor config) \<Longrightarrow>
   registerInternal config s = Thrown ReservedPropertyDefined s"
  by (simp add: registerInternal_def Let_def)

theorem register_reserved_field_throws_witness:
  "prototypeHasConfigProperty (config_constructor collidingConfig) \<and>
   registerInternal collidingConfig (freshPage []) = Thrown ReservedPropertyDefined (freshPage [])"
  using register_reserved_field_throws [of collidingConfig "freshPage []"]
  by (simp add: collidingConfig_def)

section \<open>Upgrading one element\<close>

text \<open>
  C5. When a listener cancels \<^verbatim>\<open>mdl-componentupgrading\<close> on an element, the call returns
  without an error and the state differs from the state before only by that one
  dispatched event in the trace: the attribute, the created components, the registry and
  the element's properties are the same, and no constructor call, callback call or
  \<^verbatim>\<open>mdl-componentupgraded\<close> event was recorded.
\<close>

theorem cancelled_upgrade_has_no_effect:
  "isElement element \<Longrightarrow> L s (nodeId element) \<Longrightarrow>
   upgradeElementInternal L element optJsClass s =
     Returned (s\<lparr>trace := trace s @
       [DispatchEvent (nodeId element) (Event ''mdl-componentupgrading'' True True)]\<rparr>)"
  by (simp add: upgradeElementInternal_def Let_def dispatchEvent_def createEvent'_def)

theorem cancelled_upgrade_has_no_effect_witness:
  "isElement widgetElement \<and> alwaysCancels (freshPage [widgetElement]) (nodeId widgetElement) \<and>
   upgradeElementInternal alwaysCancels widgetElement (Some ''Widget'') (freshPage [widgetElement]) =
     Returned ((freshPage [widgetElement])\<lparr>trace :=
       [DispatchEvent 0 (Event ''mdl-componentupgrading'' True True)]\<rparr>)"
  using cancelled_upgrade_has_no_effect [of widgetElement alwaysCancels "freshPage [widgetElement]"
      "Some ''Widget''"]
  by (simp add: isElement_def widgetElement_def alwaysCancels_def freshPage_def)

text \<open>
  C6. For an element, a type name that is not the empty string and has no descriptor,
  and an element not marked as upgraded for that name: when no listener cancels \<^verbatim>\<open>mdl-componentupgrading\<close>, \<^verbatim>\<open>upgradeElement\<close> throws "Unable to find a
  registered component for the given class", and the state at the throw differs from
  the state before only by that dispatched event in the trace. The attribute and the
  created components are unchanged.
\<close>

theorem unregistered_type_throws:
  assumes "isElement element" and "T \<noteq> []"
    and "fst (findRegisteredClass' T None (registeredComponents' s)) = None"
    and "\<not> isElementUpgraded' s element T"
    and "\<not> L s (nodeId element)"
  shows "upgradeElementInternal L element (Some T) s =
     Thrown NoRegisteredComponent (s\<lparr>trace := trace s @
       [DispatchEvent (nodeId element) (Event ''mdl-componentupgrading'' True True)]\<rparr>)"
  using assms
  by (simp add: upgradeElementInternal_eq classesToUpgradeOf_def)

theorem unregistered_type_throws_witness:
  "isElement widgetElement \<and>
   fst (findRegisteredClass' ''Unregistered'' None
          (registeredComponents' (freshPage [widgetElement]))) = None \<and>
   \<not> isElementUpgraded' (freshPage [widgetElement]) widgetElement ''Unregistered'' \<and>
   upgradeElementInternal neverCancels widgetElement (Some ''Unregistered'')
       (freshPage [widgetElement]) =
     Thrown NoRegisteredComponent ((freshPage [widgetElement])\<lparr>trace :=
       [DispatchEvent 0 (Event ''mdl-componentupgrading'' True True)]\<rparr>)"
proof -
  have h: "isElement widgetElement"
    "fst (findRegisteredClass' ''Unregistered'' None
          (registeredComponents' (freshPage [widgetElement]))) = None"
    "\<not> isElementUpgraded' (freshPage [widgetElement]) widgetElement ''Unregistered''"
    "\<not> neverCancels (freshPage [widgetElement]) (nodeId widgetElement)"
    by (simp_all add: eval_defs)
  from unregistered_type_throws [where element = widgetElement and T = "''Unregistered''"
      and s = "freshPage [widgetElement]" and L = neverCancels] h
  show ?thesis
    by (simp add: freshPage_def widgetElement_def)
qed

text \<open>
  The condition on the listener is needed. Here the type has no descriptor and the
  element is not marked, and the call returns: line 215 leaves the function before the
  type name is looked at.
\<close>

theorem unregistered_type_cancelled_counterexample:
  "isElement widgetElement \<and>
   fst (findRegisteredClass' ''Unregistered'' None
          (registeredComponents' (freshPage [widgetElement]))) = None \<and>
   \<not> isElementUpgraded' (freshPage [widgetElement]) widgetElement ''Unregistered'' \<and>
   upgradeElementInternal alwaysCancels widgetElement (Some ''Unregistered'')
       (freshPage [widgetElement]) =
     Returned ((freshPage [widgetElement])\<lparr>trace :=
       [DispatchEvent 0 (Event ''mdl-componentupgrading'' True True)]\<rparr>)"
  by (simp add: eval_defs)




section \<open>Upgrading the page\<close>

text \<open>
  C3. Scenario A: on a freshly loaded page whose one element has the class
  \<^verbatim>\<open>w-js\<close> and no attribute \<^verbatim>\<open>data-upgraded\<close>, after the type \<^verbatim>\<open>Widget\<close> is registered with
  that marker class, the upgraded list of the element is the one-element list holding the
  empty string, which does not mark the element for \<^verbatim>\<open>Widget\<close>; and after each of the
  bulk entry points (\<^verbatim>\<open>upgradeAllRegistered()\<close>, \<^verbatim>\<open>upgradeDom()\<close>,
  \<^verbatim>\<open>upgradeElements(element)\<close>) the attribute is the string \<^verbatim>\<open>,Widget\<close>, with the comma
  that follows the empty first entry, and the created components are exactly one
  instance, whose \<^verbatim>\<open>element_\<close> is that element.
\<close>

theorem scenario_A_attribute_has_leading_comma:
  "(let s0 = finalState (registerInternal (widgetConfig ''Widget'' ''w-js'')
                (freshPage [widgetElement]));
        instance = \<lparr>objectId = 0, element' = nodeId widgetElement,
                     mdlComponentConfigInternal' =
                       Some (newConfigOf (widgetConfig ''Widget'' ''w-js''))\<rparr>;
        sAll = finalState (upgradeAllRegisteredInternal neverCancels s0);
        sDom = finalState (upgradeDomInternal neverCancels None None s0);
        sElements = finalState (upgradeElementsInternal neverCancels (SingleNode widgetElement) s0)
    in dataUpgraded s0 (nodeId widgetElement) = None \<and>
       getUpgradedListOfElement' s0 widgetElement = [[]] \<and>
       \<not> isElementUpgraded' s0 widgetElement ''Widget'' \<and>
       dataUpgraded sAll (nodeId widgetElement) = Some '',Widget'' \<and>
       createdComponents' sAll = [instance] \<and>
       dataUpgraded sDom (nodeId widgetElement) = Some '',Widget'' \<and>
       createdComponents' sDom = [instance] \<and>
       dataUpgraded sElements (nodeId widgetElement) = Some '',Widget'' \<and>
       createdComponents' sElements = [instance])"
  by (simp add: eval_defs newConfigOf_def)

text \<open>
  In scenario A the attribute is not the bare type name \<^verbatim>\<open>Widget\<close>: line 130 starts the
  list of an element without the attribute with an empty string, "to conform the
  \<^verbatim>\<open>,name,name...\<close> style" (line 129).
\<close>

theorem scenario_A_attribute_counterexample:
  "dataUpgraded
     (finalState (upgradeAllRegisteredInternal neverCancels
        (finalState (registerInternal (widgetConfig ''Widget'' ''w-js'')
           (freshPage [widgetElement])))))
     (nodeId widgetElement) \<noteq> Some ''Widget''"
  by (simp add: eval_defs)

text \<open>
  C8. In every state that a run of public calls from the loaded script can reach,
  \<^verbatim>\<open>upgradeDom()\<close> and \<^verbatim>\<open>upgradeAllRegistered()\<close> have the same outcome: the same final
  state (registry, attributes, created components, properties, trace) and the same
  return or throw. Both go through the descriptors in registration order; the first
  passes each descriptor's marker class along, the second looks it up by the type name,
  which finds the same descriptor because type names are unique.
\<close>

theorem upgradeDom_without_arguments_is_upgradeAllRegistered:
  "initial s0 \<Longrightarrow> s = runCalls L0 calls s0 \<Longrightarrow>
   upgradeDomInternal L None None s = upgradeAllRegisteredInternal L s"
  using runCalls_uniqueNames [of s0 L0 calls] by (simp add: upgradeDom_eq_upgradeAllRegistered)

theorem upgradeDom_without_arguments_witness:
  "initial (freshPage [widgetElement]) \<and>
   (let s = runCalls neverCancels
        [Register (widgetConfig ''Other'' ''o-js''), Register (widgetConfig ''Widget'' ''w-js'')]
        (freshPage [widgetElement])
    in upgradeDomInternal neverCancels None None s = upgradeAllRegisteredInternal neverCancels s \<and>
       dataUpgraded (finalState (upgradeAllRegisteredInternal neverCancels s)) 0 =
         Some '',Widget'')"
proof -
  define s where "s = runCalls neverCancels
        [Register (widgetConfig ''Other'' ''o-js''), Register (widgetConfig ''Widget'' ''w-js'')]
        (freshPage [widgetElement])"
  have i: "initial (freshPage [widgetElement])" by (simp add: initial_def freshPage_def)
  have e: "dataUpgraded (finalState (upgradeAllRegisteredInternal neverCancels s)) 0 =
      Some '',Widget''"
    by (simp add: s_def eval_defs)
  have t: "upgradeDomInternal neverCancels None None s = upgradeAllRegisteredInternal neverCancels s"
    using upgradeDom_without_arguments_is_upgradeAllRegistered [OF i s_def] .
  show ?thesis
    unfolding Let_def s_def [symmetric] using i e t by blast
qed

text \<open>
  C9. \<^verbatim>\<open>upgradeElements\<close> of a single element, an array or a collection goes through the
  entries in order. An entry that is an \<^verbatim>\<open>HTMLElement\<close> is upgraded with no type name, and
  then its element children, as the page has them after that upgrade, are gone through
  in the same way, in document order; an entry or child that is no \<^verbatim>\<open>HTMLElement\<close> (a text
  node, an SVG element) is passed over without an error, together with what is below it.
  An exception of an upgrade ends the call. When client code leaves the tree as it is
  during the call, this is the upgrade, one after the other, of the pre-order traversal
  of the entries that descends through \<^verbatim>\<open>HTMLElement\<close>s only, each parent before its
  children; and where every element of the entries' trees is an \<^verbatim>\<open>HTMLElement\<close>, that
  traversal is every attached element of those trees in document order, the whole
  subtrees.
\<close>

theorem upgradeElements_upgrades_html_subtrees:
  "upgradeElementsInternal L elements s = forEach (upgradeSubtree L) (entriesOf elements) s \<and>
   ((\<forall>t. attached s (trace s @ t) = attached s (trace s)) \<longrightarrow>
      upgradeElementsInternal L elements s =
        forEach (\<lambda>element. upgradeElementInternal L element None)
          (concat (map (subtreePreorder (treeAt s)) (entriesOf elements))) s) \<and>
   (list_all htmlTree (entriesOf elements) \<longrightarrow>
      concat (map (subtreePreorder (treeAt s)) (entriesOf elements)) =
        filter isElement (concat (map (descendantsOrSelf (treeAt s)) (entriesOf elements))))"
proof -
  let ?given = "case elements of ArrayOf xs \<Rightarrow> xs | SingleNode n \<Rightarrow> (if isElement n then [n] else [])
        | NodeListOf xs \<Rightarrow> xs | HTMLCollectionOf xs \<Rightarrow> xs"
  have single: "subtreePreorder att n = []" if "\<not> isElement n" for n att
    using that by (simp add: isElement_def isHTMLElement_def subtreePreorder_skip)
  have norm: "upgradeSubtrees L ?given s = upgradeSubtrees L (entriesOf elements) s"
    by (cases elements) (simp_all add: entriesOf_def isElement_def isHTMLElement_def)
  have norm': "concat (map (subtreePreorder (treeAt s)) ?given) =
      concat (map (subtreePreorder (treeAt s)) (entriesOf elements))"
    by (cases elements) (simp_all add: entriesOf_def single)
  have a: "upgradeElementsInternal L elements s = forEach (upgradeSubtree L) (entriesOf elements) s"
    unfolding upgradeElementsInternal_def upgradeElementsLoop_subtrees norm
    by (rule upgradeSubtrees_forEach)
  have b: "upgradeElementsInternal L elements s =
        forEach (\<lambda>element. upgradeElementInternal L element None)
          (concat (map (subtreePreorder (treeAt s)) (entriesOf elements))) s"
    if "\<forall>t. attached s (trace s @ t) = attached s (trace s)"
    unfolding upgradeElementsInternal_def upgradeElementsLoop_preorder [OF that] norm' ..
  from a b show ?thesis by (simp add: preorder_htmlTrees)
qed

text \<open>
  At concrete inputs: the small tree, where the traversal stops at the SVG element; a
  tree of \<^verbatim>\<open>HTMLElement\<close>s, where it is every element; and the page that grows, where the
  child that the constructor appends is upgraded as well.
\<close>

theorem upgradeElements_upgrades_html_subtrees_witness:
  "(\<forall>t. attached (freshPage [smallTree]) (trace (freshPage [smallTree]) @ t) =
        attached (freshPage [smallTree]) (trace (freshPage [smallTree]))) \<and>
   map nodeId (concat (map (subtreePreorder (treeAt (freshPage [smallTree])))
     (entriesOf (SingleNode smallTree)))) = [0, 2, 3] \<and>
   upgradeElementsInternal neverCancels (SingleNode smallTree) (freshPage [smallTree]) =
     forEach (\<lambda>element. upgradeElementInternal neverCancels element None)
       (concat (map (subtreePreorder (treeAt (freshPage [smallTree])))
          (entriesOf (SingleNode smallTree)))) (freshPage [smallTree]) \<and>
   list_all htmlTree (entriesOf (ArrayOf [htmlOnlyTree])) \<and>
   map nodeId (concat (map (subtreePreorder (treeAt (freshPage [htmlOnlyTree])))
     (entriesOf (ArrayOf [htmlOnlyTree])))) = [0, 2, 3, 4] \<and>
   concat (map (subtreePreorder (treeAt (freshPage [htmlOnlyTree]))) (entriesOf (ArrayOf [htmlOnlyTree]))) =
     filter isElement (concat (map (descendantsOrSelf (treeAt (freshPage [htmlOnlyTree])))
       (entriesOf (ArrayOf [htmlOnlyTree])))) \<and>
   upgradeElementsInternal neverCancels (SingleNode growingElement)
       (finalState (registerInternal (widgetConfig ''Widget'' ''w-js'') growingPage)) =
     forEach (upgradeSubtree neverCancels) (entriesOf (SingleNode growingElement))
       (finalState (registerInternal (widgetConfig ''Widget'' ''w-js'') growingPage)) \<and>
   children (finalState (registerInternal (widgetConfig ''Widget'' ''w-js'') growingPage))
     growingElement = [] \<and>
   map element' (createdComponents' (finalState
     (upgradeElementsInternal neverCancels (SingleNode growingElement)
        (finalState (registerInternal (widgetConfig ''Widget'' ''w-js'') growingPage))))) = [0, 1]"
proof -
  have f: "\<forall>t. attached (freshPage [smallTree]) (trace (freshPage [smallTree]) @ t) =
        attached (freshPage [smallTree]) (trace (freshPage [smallTree]))"
    by (simp add: freshPage_def)
  have a: "map nodeId (concat (map (subtreePreorder (treeAt (freshPage [smallTree])))
      (entriesOf (SingleNode smallTree)))) = [0, 2, 3]"
    by (simp add: entriesOf_def smallTree_def subtreePreorder.simps treeAt_def freshPage_def
        isElement_def)
  have b: "list_all htmlTree (entriesOf (ArrayOf [htmlOnlyTree]))"
    by (simp add: entriesOf_def htmlOnlyTree_def)
  have c: "map nodeId (concat (map (subtreePreorder (treeAt (freshPage [htmlOnlyTree])))
      (entriesOf (ArrayOf [htmlOnlyTree])))) = [0, 2, 3, 4]"
    by (simp add: entriesOf_def htmlOnlyTree_def subtreePreorder.simps treeAt_def freshPage_def
        isElement_def)
  have d: "children (finalState (registerInternal (widgetConfig ''Widget'' ''w-js'') growingPage))
     growingElement = []"
    by (simp add: growingPage_def growingElement_def eval_defs)
  have e: "map element' (createdComponents' (finalState
     (upgradeElementsInternal neverCancels (SingleNode growingElement)
        (finalState (registerInternal (widgetConfig ''Widget'' ''w-js'') growingPage))))) = [0, 1]"
    by (simp add: growingPage_def growingElement_def eval_defs)
  from f a b c d e
    upgradeElements_upgrades_html_subtrees
      [of neverCancels "SingleNode smallTree" "freshPage [smallTree]"]
    upgradeElements_upgrades_html_subtrees
      [of neverCancels "ArrayOf [htmlOnlyTree]" "freshPage [htmlOnlyTree]"]
    upgradeElements_upgrades_html_subtrees
      [of neverCancels "SingleNode growingElement"
        "finalState (registerInternal (widgetConfig ''Widget'' ''w-js'') growingPage)"]
  show ?thesis by blast
qed

text \<open>
  The upgrade is not one of the full subtree. In the small tree the element 5 is an
  \<^verbatim>\<open>HTMLElement\<close> with the marker class \<^verbatim>\<open>w-js\<close>, below the SVG element 4: line 282 passes
  the SVG element over and nothing below it is looked at. After \<^verbatim>\<open>upgradeElements\<close> of the
  root the elements 0 and 3 have an instance and the attribute, and 5 has neither.
\<close>

theorem upgradeElements_below_svg_counterexample:
  "(let s0 = finalState (registerInternal (widgetConfig ''Widget'' ''w-js'') (freshPage [smallTree]));
        s = finalState (upgradeElementsInternal neverCancels (SingleNode smallTree) s0)
    in isReturned (upgradeElementsInternal neverCancels (SingleNode smallTree) s0) \<and>
       map nodeId (filter (\<lambda>n. isHTMLElement n \<and> ''w-js'' \<in> set (classList n))
         (descendantsOrSelf (treeAt s0) smallTree)) = [0, 3, 5] \<and>
       map element' (createdComponents' s) = [0, 3] \<and>
       dataUpgraded s 0 = Some '',Widget'' \<and>
       dataUpgraded s 3 = Some '',Widget'' \<and>
       dataUpgraded s 5 = None)"
  by (simp add: eval_defs smallTree_def treeAt_def)

section \<open>Downgrading\<close>

text \<open>
  C10. In every state that a run of public calls from the loaded script reaches, each
  call returning or throwing: every created component's element has the attribute
  \<^verbatim>\<open>data-upgraded\<close>, and the component carries, in the field named by
  \<^verbatim>\<open>componentConfigProperty_\<close>, the descriptor under which it was created, whose type
  name is registered. As long as no call of the run has replaced a descriptor, that
  descriptor is one of the registry; after its type name has been registered again it
  is not, and the registry holds the replacement under the name. So \<^verbatim>\<open>downgradeElements\<close>
  never fails at line 371 or 372: it returns for a node, an array and a node list, and
  throws only its own argument error.
\<close>

theorem live_instances_have_attribute_and_named_descriptor:
  assumes "initial s0" and "runsModelled L calls s0" and "s = runCalls L calls s0"
  shows "liveInstancesSound s \<and>
    (neverReplaces L calls s0 \<longrightarrow> list_all (pointsAtRegistered s) (createdComponents' s)) \<and>
    (case nodes of
       HTMLCollectionOf xs \<Rightarrow> downgradeNodesInternal nodes s = Thrown InvalidDowngradeArgument s
     | _ \<Rightarrow> isReturned (downgradeNodesInternal nodes s))"
proof -
  have sound: "liveInstancesSound s"
    unfolding assms(3) using assms(1) by (rule runCalls_liveInstancesSound)
  have "list_all (pointsAtRegistered s0) (createdComponents' s0)"
    using assms(1) by (simp add: initial_def)
  then have "list_all (pointsAtRegistered s) (createdComponents' s)" if "neverReplaces L calls s0"
    unfolding assms(3) using that by (rule runCalls_pointsAtRegistered)
  with sound downgradeNodes_returns [OF sound, of nodes] show ?thesis by simp
qed

text \<open>
  At a concrete run: the element is upgraded and then a callback is subscribed to its
  type, which changes the callbacks of the descriptor in the registry and nothing else
  of it.
\<close>

theorem live_instances_witness:
  "initial (freshPage [widgetElement]) \<and>
   runsModelled neverCancels
     [Register (widgetConfig ''Widget'' ''w-js''), UpgradeAllRegistered,
      RegisterUpgradedCallback ''Widget'' 7] (freshPage [widgetElement]) \<and>
   neverReplaces neverCancels
     [Register (widgetConfig ''Widget'' ''w-js''), UpgradeAllRegistered,
      RegisterUpgradedCallback ''Widget'' 7] (freshPage [widgetElement]) \<and>
   (let s = runCalls neverCancels
        [Register (widgetConfig ''Widget'' ''w-js''), UpgradeAllRegistered,
         RegisterUpgradedCallback ''Widget'' 7] (freshPage [widgetElement])
    in map element' (createdComponents' s) = [0] \<and>
       map callbacks (registeredComponents' s) = [[7]] \<and>
       liveInstancesSound s \<and>
       list_all (pointsAtRegistered s) (createdComponents' s) \<and>
       isReturned (downgradeNodesInternal (SingleNode widgetElement) s))"
proof -
  let ?calls = "[Register (widgetConfig ''Widget'' ''w-js''), UpgradeAllRegistered,
      RegisterUpgradedCallback ''Widget'' 7]"
  define s where "s = runCalls neverCancels ?calls (freshPage [widgetElement])"
  have i: "initial (freshPage [widgetElement])" by (simp add: initial_def freshPage_def)
  have m: "runsModelled neverCancels ?calls (freshPage [widgetElement])"
    by (simp add: eval_defs)
  have n: "neverReplaces neverCancels ?calls (freshPage [widgetElement])"
    by (simp add: eval_defs)
  have e: "map element' (createdComponents' s) = [0]" "map callbacks (registeredComponents' s) = [[7]]"
    by (simp_all add: s_def eval_defs)
  have t: "liveInstancesSound s \<and> list_all (pointsAtRegistered s) (createdComponents' s) \<and>
      isReturned (downgradeNodesInternal (SingleNode widgetElement) s)"
  proof -
    have "case SingleNode widgetElement of
        HTMLCollectionOf xs \<Rightarrow> downgradeNodesInternal (SingleNode widgetElement) s =
          Thrown InvalidDowngradeArgument s
      | _ \<Rightarrow> isReturned (downgradeNodesInternal (SingleNode widgetElement) s)"
      and "liveInstancesSound s"
      and "neverReplaces neverCancels ?calls (freshPage [widgetElement]) \<longrightarrow>
        list_all (pointsAtRegistered s) (createdComponents' s)"
      using live_instances_have_attribute_and_named_descriptor
        [OF i m s_def, of "SingleNode widgetElement"] by blast+
    then have "isReturned (downgradeNodesInternal (SingleNode widgetElement) s)"
      and "liveInstancesSound s"
      and "neverReplaces neverCancels ?calls (freshPage [widgetElement]) \<longrightarrow>
        list_all (pointsAtRegistered s) (createdComponents' s)"
      by (simp_all only: NodesArg.case)
    with n show ?thesis by blast
  qed
  show ?thesis
    unfolding Let_def s_def [symmetric] using i m n e t by blast
qed

text \<open>
  The descriptor that an instance carries need not be in the registry. Here the type
  \<^verbatim>\<open>Widget\<close> is registered with the marker class \<^verbatim>\<open>w-js\<close>, the element is upgraded, and
  \<^verbatim>\<open>Widget\<close> is registered again with the marker class \<^verbatim>\<open>w2-js\<close>: line 112 puts the new
  descriptor into the array in place of the old one, and the instance keeps the old one,
  whose marker class no descriptor of the array has.
\<close>

theorem replaced_descriptor_counterexample:
  "(let s = runCalls neverCancels
        [Register (widgetConfig ''Widget'' ''w-js''), UpgradeAllRegistered,
         Register (widgetConfig ''Widget'' ''w2-js'')] (freshPage [widgetElement])
    in runsModelled neverCancels
        [Register (widgetConfig ''Widget'' ''w-js''), UpgradeAllRegistered,
         Register (widgetConfig ''Widget'' ''w2-js'')] (freshPage [widgetElement]) \<and>
       map (\<lambda>c. map_option cssClass (mdlComponentConfigInternal' c)) (createdComponents' s) =
         [Some ''w-js''] \<and>
       map cssClass (registeredComponents' s) = [''w2-js''] \<and>
       \<not> list_all (pointsAtRegistered s) (createdComponents' s))"
  by (simp add: eval_defs pointsAtRegistered_def sameConstants_def)




end
